theory Spec2Isabelle
  imports Main "HOL-Library.Word" "HOL-Library.Signed_Division" "HOL-Library.DAList"
    "HOL-Library.Sublist"
begin

section \<open>Gauge metric producer of statsd: data model\<close>

text \<open>
  The development embeds \<^verbatim>\<open>GaugeMetricProducer.cpp\<close> and the inline members of
  \<^verbatim>\<open>MetricProducer.h\<close> it relies on. Conventions:
  \<^item> \<^verbatim>\<open>int64_t\<close> is \<open>64 word\<close> and \<^verbatim>\<open>int\<close>/\<^verbatim>\<open>int32_t\<close> is \<open>32 word\<close>; \<open>+\<close>, \<open>-\<close>, \<open>*\<close> wrap
    (two's complement), comparisons are the signed ones (\<open><s\<close>, \<open>\<le>s\<close>), and \<^verbatim>\<open>/\<close> is
    truncating signed division. \<^verbatim>\<open>long\<close> is taken to be 64 bits wide (LP64).
  \<^item> \<^verbatim>\<open>size_t\<close> counts are \<open>nat\<close>.
  \<^item> A division by zero, the quotient \<^verbatim>\<open>INT64_MIN / -1\<close> and \<^verbatim>\<open>front()\<close> of an empty
    vector have no defined result in the source; the model returns them as errors
    (\<open>Inl\<close>), and every function that can reach one returns \<open>error + 'a\<close>.
  \<^item> \<^verbatim>\<open>std::unordered_map\<close> is a \<open>('k, 'v) alist\<close>: an association list whose keys are
    distinct by type. The list order stands for the iteration order of the table, which
    the source leaves to the hash function; no statement below depends on it.
  \<^item> Calls into the shared statistics sink and into the attached anomaly trackers are
    recorded, in call order, in two lists kept beside the producer's own fields.
  \<^item> Logging (\<^verbatim>\<open>VLOG\<close>, \<^verbatim>\<open>ALOGE\<close>) and the mutex are not modelled.
\<close>

type_synonym int64 = "64 word"
type_synonym int32 = "32 word"

datatype error = DivisionByZero | DivisionOverflow | FrontOfEmptyVector

text \<open>C++ \<^verbatim>\<open>a / b\<close> on \<^verbatim>\<open>int64_t\<close>: truncation towards zero, undefined for \<open>b = 0\<close> and
  for the one quotient that does not fit.\<close>

definition sdiv64 :: "int64 \<Rightarrow> int64 \<Rightarrow> int64" where
  "sdiv64 a b = word_of_int (sint a sdiv sint b)"

definition div64 :: "int64 \<Rightarrow> int64 \<Rightarrow> error + int64" where
  "div64 a b =
     (if b = 0 then Inl DivisionByZero
      else if a = - (2 ^ 63) \<and> b = - 1 then Inl DivisionOverflow
      else Inr (sdiv64 a b))"

subsection \<open>Atoms, field values and keys\<close>

datatype Field = Field (getTag: int32) (getField: int32)

text \<open>The value of a field: the type tag (\<^verbatim>\<open>INT\<close>, \<^verbatim>\<open>LONG\<close>, ...) together with the
  union member it selects. Floating-point payloads are kept as their bit patterns;
  nothing below computes with them.\<close>

datatype Value =
    INT_value int32
  | LONG_value int64
  | FLOAT_value "32 word"
  | DOUBLE_value "64 word"
  | STRING_value string
  | STORAGE_value "8 word list"

record FieldValue =
  mField :: Field
  mValue :: Value

datatype Matcher = Matcher (mMatcher: Field) (mMask: int32)

datatype LogEvent =
  LogEvent (GetTagId: int32) (GetElapsedTimestampNs: int64) (getValues: "FieldValue list")

definition setElapsedTimestampNs :: "int64 \<Rightarrow> LogEvent \<Rightarrow> LogEvent" where
  "setElapsedTimestampNs ts ev = LogEvent (GetTagId ev) ts (getValues ev)"

type_synonym HashableDimensionKey = "FieldValue list"

datatype MetricDimensionKey =
  MetricDimensionKey (getDimensionKeyInWhat: HashableDimensionKey)
                     (getStateValuesKey: HashableDimensionKey)

datatype AtomDimensionKey =
  AtomDimensionKey (getAtomTag: int32) (getAtomFieldValues: HashableDimensionKey)

subsection \<open>Buckets\<close>

record GaugeAtom =
  mFields :: "FieldValue list"
  mElapsedTimestampNs :: int64

record GaugeBucket =
  mBucketStartNs :: int64
  mBucketEndNs :: int64
  mAggregatedAtoms :: "(AtomDimensionKey, int64 list) alist"

datatype BucketDropReason =
    DUMP_REPORT_REQUESTED
  | EVENT_IN_WRONG_BUCKET
  | CONDITION_UNKNOWN
  | PULL_FAILED
  | PULL_DELAYED
  | DIMENSION_GUARDRAIL_REACHED
  | MULTIPLE_BUCKETS_SKIPPED
  | BUCKET_TOO_SMALL
  | NO_DATA

record DropEvent =
  reason :: BucketDropReason
  dropTimeNs :: int64

record SkippedBucket =
  bucketStartTimeNs :: int64
  bucketEndTimeNs :: int64
  dropEvents :: "DropEvent list"

text \<open>\<^verbatim>\<open>SkippedBucket::reset\<close>.\<close>

definition reset :: "SkippedBucket \<Rightarrow> SkippedBucket" where
  "reset b = b\<lparr>bucketStartTimeNs := 0, bucketEndTimeNs := 0, dropEvents := []\<rparr>"

subsection \<open>Collaborators seen through their calls\<close>

datatype ConditionState = kUnknown | kFalse | kTrue

datatype MatchingState = kNotComputed | kMatched | kNotMatched

datatype PullResult = PULL_RESULT_SUCCESS | PULL_RESULT_FAIL | PULL_NOT_NEEDED

text \<open>The sampling types of the gauge metric. \<open>ALL_CONDITION_CHANGES\<close> stands for every
  enumerator that the \<^verbatim>\<open>switch\<close> of \<^verbatim>\<open>pullAndMatchEventsLocked\<close> sends to \<^verbatim>\<open>default\<close>.\<close>

datatype SamplingType =
    RANDOM_ONE_SAMPLE
  | ALL_CONDITION_CHANGES
  | CONDITION_CHANGE_TO_TRUE
  | FIRST_N_SAMPLES

text \<open>One constructor per method of \<^verbatim>\<open>StatsdStats\<close> that the producer calls.\<close>

datatype StatsNote =
    notePullDelay int32 int64
  | notePullExceedMaxDelay int32
  | noteMetricDimensionSize int64 nat
  | noteHardDimensionLimitReached int64
  | noteBucketCount int64
  | noteBucketDropped int64

text \<open>An attached anomaly tracker is known by an identifier; the two methods the producer
  calls on it are recorded with their arguments.\<close>

type_synonym AnomalyTracker = nat

datatype AnomalyCall =
    detectAndDeclareAnomaly AnomalyTracker int64 int64 int64 MetricDimensionKey int64
  | addPastBucket AnomalyTracker "(MetricDimensionKey \<times> int64) list" int64

subsection \<open>The producer\<close>

record GaugeMetricProducer =
  mMetricId :: int64
  mTimeBaseNs :: int64
  mCurrentBucketStartTimeNs :: int64
  mCurrentBucketNum :: int64
  mBucketSizeNs :: int64
  mCondition :: ConditionState
  mShouldUseNestedDimensions :: bool
  mDimensionsInWhat :: "Matcher list"
  mAnomalyTrackers :: "AnomalyTracker list"
  mIsActive :: bool
  mCurrentSkippedBucket :: SkippedBucket
  mSkippedBuckets :: "SkippedBucket list"
  mHasHitGuardrail :: bool
  mPullTagId :: int32
  mTriggerAtomId :: int32
  mAtomId :: int32
  mIsPulled :: bool
  mMinBucketSizeNs :: int64
  mSamplingType :: SamplingType
  mMaxPullDelayNs :: int64
  mDimensionSoftLimit :: nat
  mDimensionHardLimit :: nat
  mGaugeAtomsPerDimensionLimit :: nat
  mDimensionGuardrailHit :: bool
  mSamplingPercentage :: int32
  mFieldMatchers :: "Matcher list"
  mCurrentSlicedBucket :: "(MetricDimensionKey, GaugeAtom list) alist"
  mCurrentSlicedBucketForAnomaly :: "(MetricDimensionKey, int64) alist"
  mPastBuckets :: "(MetricDimensionKey, GaugeBucket list) alist"
  statsdStats :: "StatsNote list"
  anomalyCalls :: "AnomalyCall list"

section \<open>Bucket engine\<close>

text \<open>\<^verbatim>\<open>m.find(k) != m.end()\<close>, \<^verbatim>\<open>m.size()\<close>, and the two halves of \<^verbatim>\<open>m[k]\<close> on a map of
  vectors: the entry is created empty when absent (\<open>subscript\<close>), then read (\<open>at\<close>).\<close>

definition contains :: "('k, 'v) alist \<Rightarrow> 'k \<Rightarrow> bool" where
  "contains m k = (DAList.lookup m k \<noteq> None)"

definition msize :: "('k, 'v) alist \<Rightarrow> nat" where
  "msize m = length (DAList.impl_of m)"

definition subscript :: "('k, 'v list) alist \<Rightarrow> 'k \<Rightarrow> ('k, 'v list) alist" where
  "subscript m k = (if contains m k then m else DAList.update k [] m)"

definition at :: "('k, 'v list) alist \<Rightarrow> 'k \<Rightarrow> 'v list" where
  "at m k = (case DAList.lookup m k of None \<Rightarrow> [] | Some v \<Rightarrow> v)"

text \<open>\<^verbatim>\<open>MetricProducer::getCurrentBucketEndTimeNs\<close> and
  \<^verbatim>\<open>MetricProducer::getBucketNumFromEndTimeNs\<close>.\<close>

definition getCurrentBucketEndTimeNs :: "GaugeMetricProducer \<Rightarrow> int64" where
  "getCurrentBucketEndTimeNs p =
     mTimeBaseNs p + (mCurrentBucketNum p + 1) * mBucketSizeNs p"

definition getBucketNumFromEndTimeNs :: "GaugeMetricProducer \<Rightarrow> int64 \<Rightarrow> error + int64" where
  "getBucketNumFromEndTimeNs p endNs =
     (case div64 (endNs - mTimeBaseNs p) (mBucketSizeNs p) of
        Inl e \<Rightarrow> Inl e
      | Inr q \<Rightarrow> Inr (q - 1))"

text \<open>Modelled from the spec: \<^verbatim>\<open>MetricProducer::buildDropEvent\<close> and
  \<^verbatim>\<open>MetricProducer::maxDropEventsReached\<close>, declared in \<^verbatim>\<open>MetricProducer.h\<close> and defined
  in a file that is not part of the sources at hand. The drop event pairs the reason with
  the drop time; the drop-event vector of a skipped bucket is capped at 10 (the comment
  on the declaration gives the same number).\<close>

definition buildDropEvent :: "int64 \<Rightarrow> BucketDropReason \<Rightarrow> DropEvent" where
  "buildDropEvent t r = \<lparr>reason = r, dropTimeNs = t\<rparr>"

definition kMaxLoggedBucketDropEvents :: nat where
  "kMaxLoggedBucketDropEvents = 10"

definition maxDropEventsReached :: "GaugeMetricProducer \<Rightarrow> bool" where
  "maxDropEventsReached p =
     (kMaxLoggedBucketDropEvents \<le> length (dropEvents (mCurrentSkippedBucket p)))"

text \<open>The conversion shared by both anomaly paths: an \<^verbatim>\<open>INT\<close> is widened with its sign,
  a \<^verbatim>\<open>LONG\<close> is taken as it is, every other type leaves the initial 0.\<close>

definition gaugeVal :: "Value \<Rightarrow> int64" where
  "gaugeVal v = (case v of INT_value i \<Rightarrow> scast i | LONG_value l \<Rightarrow> l | _ \<Rightarrow> 0)"

text \<open>\<^verbatim>\<open>updateCurrentSlicedBucketForAnomaly\<close>: the loop over the slices of the current
  bucket. \<^verbatim>\<open>mFields->front()\<close> is read without a check.\<close>

fun updateCurrentSlicedBucketForAnomaly ::
  "(MetricDimensionKey \<times> GaugeAtom list) list \<Rightarrow> (MetricDimensionKey, int64) alist
     \<Rightarrow> error + (MetricDimensionKey, int64) alist" where
  "updateCurrentSlicedBucketForAnomaly [] m = Inr m"
| "updateCurrentSlicedBucketForAnomaly ((k, atoms) # rest) m =
     (case atoms of
        [] \<Rightarrow> updateCurrentSlicedBucketForAnomaly rest m
      | a # _ \<Rightarrow>
          (case mFields a of
             [] \<Rightarrow> Inl FrontOfEmptyVector
           | fv # _ \<Rightarrow>
               updateCurrentSlicedBucketForAnomaly rest
                 (DAList.update k (gaugeVal (mValue fv)) m)))"

text \<open>The inner loop of \<^verbatim>\<open>flushCurrentBucketLocked\<close>: every atom of a slice adds its
  timestamp to the vector stored under its \<open>AtomDimensionKey\<close>.\<close>

fun aggregateAtoms ::
  "int32 \<Rightarrow> GaugeAtom list \<Rightarrow> (AtomDimensionKey, int64 list) alist
     \<Rightarrow> (AtomDimensionKey, int64 list) alist" where
  "aggregateAtoms atomId [] m = m"
| "aggregateAtoms atomId (a # rest) m =
     (let key = AtomDimensionKey atomId (mFields a)
      in aggregateAtoms atomId rest
           (DAList.update key (at m key @ [mElapsedTimestampNs a]) m))"

text \<open>The outer loop: one bucket per slice, appended to the past buckets of the slice's
  dimension.\<close>

fun flushSlices ::
  "int32 \<Rightarrow> GaugeBucket \<Rightarrow> (MetricDimensionKey \<times> GaugeAtom list) list
     \<Rightarrow> (MetricDimensionKey, GaugeBucket list) alist
     \<Rightarrow> (MetricDimensionKey, GaugeBucket list) alist" where
  "flushSlices atomId info [] past = past"
| "flushSlices atomId info ((k, atoms) # rest) past =
     (let info' = info\<lparr>mAggregatedAtoms := aggregateAtoms atomId atoms DAList.empty\<rparr>
      in flushSlices atomId info' rest (DAList.update k (at past k @ [info']) past))"

text \<open>\<^verbatim>\<open>flushCurrentBucketLocked\<close>, first part: the closed bucket goes to the past buckets
  when it is large enough, else (for an active producer) to the skipped buckets.\<close>

definition bucketEndTime :: "GaugeMetricProducer \<Rightarrow> int64 \<Rightarrow> int64" where
  "bucketEndTime p eventTimeNs =
     (let fullBucketEndTimeNs = getCurrentBucketEndTimeNs p
      in if eventTimeNs <s fullBucketEndTimeNs then eventTimeNs else fullBucketEndTimeNs)"

definition isBucketLargeEnough :: "GaugeMetricProducer \<Rightarrow> int64 \<Rightarrow> bool" where
  "isBucketLargeEnough p eventTimeNs =
     (mMinBucketSizeNs p \<le>s bucketEndTime p eventTimeNs - mCurrentBucketStartTimeNs p)"

definition closeBucket :: "GaugeMetricProducer \<Rightarrow> int64 \<Rightarrow> GaugeMetricProducer" where
  "closeBucket p eventTimeNs =
     (let info = \<lparr>mBucketStartNs = mCurrentBucketStartTimeNs p,
                  mBucketEndNs = bucketEndTime p eventTimeNs,
                  mAggregatedAtoms = DAList.empty\<rparr>
      in if isBucketLargeEnough p eventTimeNs then
           p\<lparr>mPastBuckets :=
               flushSlices (mAtomId p) info (DAList.impl_of (mCurrentSlicedBucket p))
                 (mPastBuckets p)\<rparr>
         else if mIsActive p then
           (let skipped = (mCurrentSkippedBucket p)
                  \<lparr>bucketStartTimeNs := mCurrentBucketStartTimeNs p,
                   bucketEndTimeNs := bucketEndTime p eventTimeNs\<rparr>;
                skipped' =
                  (if \<not> maxDropEventsReached p
                   then skipped\<lparr>dropEvents :=
                          dropEvents skipped @ [buildDropEvent eventTimeNs BUCKET_TOO_SMALL]\<rparr>
                   else skipped)
            in p\<lparr>mCurrentSkippedBucket := skipped',
                 mSkippedBuckets := mSkippedBuckets p @ [skipped']\<rparr>)
         else p)"

text \<open>Second part: with anomaly trackers attached, the partial bucket values are updated
  and, past a full bucket boundary, handed to every tracker.\<close>

definition updateAnomalyTrackers ::
  "GaugeMetricProducer \<Rightarrow> int64 \<Rightarrow> error + GaugeMetricProducer" where
  "updateAnomalyTrackers p eventTimeNs =
     (if mAnomalyTrackers p \<noteq> [] then
        (case updateCurrentSlicedBucketForAnomaly (DAList.impl_of (mCurrentSlicedBucket p))
                (mCurrentSlicedBucketForAnomaly p) of
           Inl e \<Rightarrow> Inl e
         | Inr m \<Rightarrow>
             if getCurrentBucketEndTimeNs p <s eventTimeNs then
               Inr (p\<lparr>mCurrentSlicedBucketForAnomaly := DAList.empty,
                      anomalyCalls := anomalyCalls p @
                        map (\<lambda>tracker. addPastBucket tracker (DAList.impl_of m)
                                          (mCurrentBucketNum p))
                            (mAnomalyTrackers p)\<rparr>)
             else Inr (p\<lparr>mCurrentSlicedBucketForAnomaly := m\<rparr>))
      else Inr p)"

definition flushCurrentBucketLocked ::
  "GaugeMetricProducer \<Rightarrow> int64 \<Rightarrow> int64 \<Rightarrow> error + GaugeMetricProducer" where
  "flushCurrentBucketLocked p eventTimeNs nextBucketStartTimeNs =
     (case updateAnomalyTrackers (closeBucket p eventTimeNs) eventTimeNs of
        Inl e \<Rightarrow> Inl e
      | Inr p' \<Rightarrow>
          Inr (p'\<lparr>statsdStats := statsdStats p' @ [noteBucketCount (mMetricId p')],
                  mCurrentSlicedBucket := DAList.empty,
                  mCurrentBucketStartTimeNs := nextBucketStartTimeNs,
                  mCurrentSkippedBucket := reset (mCurrentSkippedBucket p'),
                  mHasHitGuardrail := False\<rparr>))"

text \<open>\<^verbatim>\<open>flushIfNeededLocked\<close> and \<^verbatim>\<open>MetricProducer::flushLocked\<close>.\<close>

definition flushIfNeededLocked ::
  "GaugeMetricProducer \<Rightarrow> int64 \<Rightarrow> error + GaugeMetricProducer" where
  "flushIfNeededLocked p eventTimeNs =
     (let currentBucketEndTimeNs = getCurrentBucketEndTimeNs p
      in if eventTimeNs <s currentBucketEndTimeNs then Inr p
         else
           (case div64 (eventTimeNs - currentBucketEndTimeNs) (mBucketSizeNs p) of
              Inl e \<Rightarrow> Inl e
            | Inr q \<Rightarrow>
                (let numBucketsForward = 1 + q;
                     nextBucketNs =
                       currentBucketEndTimeNs + (numBucketsForward - 1) * mBucketSizeNs p
                 in case flushCurrentBucketLocked p eventTimeNs nextBucketNs of
                      Inl e \<Rightarrow> Inl e
                    | Inr p' \<Rightarrow>
                        Inr (p'\<lparr>mCurrentBucketNum :=
                                  mCurrentBucketNum p' + numBucketsForward\<rparr>))))"

definition flushLocked :: "GaugeMetricProducer \<Rightarrow> int64 \<Rightarrow> error + GaugeMetricProducer" where
  "flushLocked p eventTimeNs =
     (case flushIfNeededLocked p eventTimeNs of
        Inl e \<Rightarrow> Inl e
      | Inr p' \<Rightarrow> flushCurrentBucketLocked p' eventTimeNs eventTimeNs)"

section \<open>Gauge producer\<close>

text \<open>Pure helpers of other files that \<^verbatim>\<open>GaugeMetricProducer.cpp\<close> calls and whose bodies are
  not part of the sources at hand: \<^verbatim>\<open>truncateTimestampIfNecessary\<close>, \<^verbatim>\<open>filterGaugeValues\<close>
  and \<^verbatim>\<open>Field::matches\<close>. They are parameters of the model.\<close>

record Helpers =
  truncateTimestampIfNecessary :: "LogEvent \<Rightarrow> int64"
  filterGaugeValues :: "Matcher list \<Rightarrow> FieldValue list \<Rightarrow> FieldValue list"
  matches :: "Field \<Rightarrow> Matcher \<Rightarrow> bool"

text \<open>What the environment answers while one event is processed. A pull is answered by
  \<open>PullerReply\<close>: whether \<^verbatim>\<open>Pull\<close> succeeded, the atoms it returned, and the value of
  \<^verbatim>\<open>getElapsedRealtimeNs()\<close> read after it. Every returned atom carries the verdict of the
  event matcher and the answers needed should the atom be processed (\<open>EventEnv\<close>): the
  dimension key and condition computed for it, the outcome of \<^verbatim>\<open>shouldKeepRandomSample\<close>,
  and the reply to the pull it would start if it is a trigger atom.\<close>

datatype PullerReply =
  PullerReply (pullSucceeded: bool) (allData: "PulledEvent list") (getElapsedRealtimeNs: int64)
and PulledEvent =
  PulledEvent (data: LogEvent) (matchResult: MatchingState)
              (transformedEvent: "LogEvent option") (matchedEnv: EventEnv)
and EventEnv =
  EventEnv (envEventKey: MetricDimensionKey) (envCondition: bool)
           (envKeepRandomSample: bool) (envPuller: PullerReply)

text \<open>\<^verbatim>\<open>getGaugeFields\<close>: the gauge fields of the event, with every field that matches a
  dimension matcher erased.\<close>

definition getGaugeFields ::
  "Helpers \<Rightarrow> GaugeMetricProducer \<Rightarrow> LogEvent \<Rightarrow> FieldValue list" where
  "getGaugeFields h p event =
     fold (\<lambda>field gaugeFields. filter (\<lambda>it. \<not> matches h (mField it) field) gaugeFields)
       (mDimensionsInWhat p)
       (if mFieldMatchers p \<noteq> []
        then filterGaugeValues h (mFieldMatchers p) (getValues event)
        else getValues event)"

text \<open>\<^verbatim>\<open>hitGuardRailLocked\<close>: the returned flag and the producer after the call.\<close>

definition hitGuardRailLocked ::
  "GaugeMetricProducer \<Rightarrow> MetricDimensionKey \<Rightarrow> bool \<times> GaugeMetricProducer" where
  "hitGuardRailLocked p newKey =
     (if contains (mCurrentSlicedBucket p) newKey then (False, p)
      else if mDimensionSoftLimit p \<le> msize (mCurrentSlicedBucket p) then
        (let newTupleCount = msize (mCurrentSlicedBucket p) + 1;
             p1 = p\<lparr>statsdStats := statsdStats p @
                        [noteMetricDimensionSize (mMetricId p) newTupleCount]\<rparr>
         in if mDimensionHardLimit p < newTupleCount then
              (True, p1\<lparr>mHasHitGuardrail := True,
                        mDimensionGuardrailHit := True,
                        statsdStats := statsdStats p1 @
                          [noteHardDimensionLimitReached (mMetricId p)]\<rparr>)
            else (False, p1))
      else (False, p))"

text \<open>The tail of \<^verbatim>\<open>onMatchedLogEventInternalLocked\<close>, from the random-sample check on.
  \<^verbatim>\<open>(*mCurrentSlicedBucket)[eventKey]\<close> creates the entry before its size is compared with
  the limit.\<close>

definition appendGaugeAtom ::
  "Helpers \<Rightarrow> GaugeMetricProducer \<Rightarrow> MetricDimensionKey \<Rightarrow> LogEvent \<Rightarrow> GaugeMetricProducer"
  where
  "appendGaugeAtom h p eventKey event =
     (if contains (mCurrentSlicedBucket p) eventKey \<and> mSamplingType p = RANDOM_ONE_SAMPLE
      then p
      else
        (case hitGuardRailLocked p eventKey of
           (True, p1) \<Rightarrow> p1
         | (False, p1) \<Rightarrow>
             (let p2 = p1\<lparr>mCurrentSlicedBucket := subscript (mCurrentSlicedBucket p1) eventKey\<rparr>
              in if mGaugeAtomsPerDimensionLimit p2 \<le> length (at (mCurrentSlicedBucket p2) eventKey)
                 then p2
                 else
                   (let gaugeAtom = \<lparr>mFields = getGaugeFields h p2 event,
                                      mElapsedTimestampNs = truncateTimestampIfNecessary h event\<rparr>;
                        p3 = p2\<lparr>mCurrentSlicedBucket :=
                                   DAList.update eventKey
                                     (at (mCurrentSlicedBucket p2) eventKey @ [gaugeAtom])
                                     (mCurrentSlicedBucket p2)\<rparr>
                    in if mAnomalyTrackers p3 \<noteq> [] then
                         (case mFields gaugeAtom of
                            [fv] \<Rightarrow>
                              p3\<lparr>anomalyCalls := anomalyCalls p3 @
                                   map (\<lambda>tracker.
                                          detectAndDeclareAnomaly tracker
                                            (GetElapsedTimestampNs event) (mCurrentBucketNum p3)
                                            (mMetricId p3) eventKey (gaugeVal (mValue fv)))
                                       (mAnomalyTrackers p3)\<rparr>
                          | _ \<Rightarrow> p3)
                       else p3))))"

text \<open>The \<^verbatim>\<open>switch\<close> at the head of \<^verbatim>\<open>pullAndMatchEventsLocked\<close>.\<close>

definition triggerPuller :: "GaugeMetricProducer \<Rightarrow> bool" where
  "triggerPuller p =
     (case mSamplingType p of
        RANDOM_ONE_SAMPLE \<Rightarrow> msize (mCurrentSlicedBucket p) = 0
      | CONDITION_CHANGE_TO_TRUE \<Rightarrow> True
      | FIRST_N_SAMPLES \<Rightarrow> True
      | _ \<Rightarrow> False)"

text \<open>\<^verbatim>\<open>pullAndMatchEventsLocked\<close>, its loop over the pulled atoms,
  \<^verbatim>\<open>onMatchedLogEventLocked\<close> and \<^verbatim>\<open>onMatchedLogEventInternalLocked\<close> call each other; the
  recursion follows the replies of the environment.

  Modelled from the spec: \<^verbatim>\<open>MetricProducer::onMatchedLogEventLocked\<close> is declared in
  \<^verbatim>\<open>MetricProducer.h\<close> and defined in a file that is not part of the sources at hand. An
  inactive producer ignores the event (the check is named in the comment of the trigger
  branch below); otherwise the event takes the append path with the dimension key and
  the condition that the collaborators computed for it.\<close>

function (sequential) pullAndMatchEventsLocked ::
  "Helpers \<Rightarrow> GaugeMetricProducer \<Rightarrow> int64 \<Rightarrow> PullerReply \<Rightarrow> error + GaugeMetricProducer"
and matchPulledEvents ::
  "Helpers \<Rightarrow> GaugeMetricProducer \<Rightarrow> int64 \<Rightarrow> PulledEvent list \<Rightarrow> error + GaugeMetricProducer"
and onMatchedLogEventLocked ::
  "Helpers \<Rightarrow> GaugeMetricProducer \<Rightarrow> LogEvent \<Rightarrow> EventEnv \<Rightarrow> error + GaugeMetricProducer"
and onMatchedLogEventInternalLocked ::
  "Helpers \<Rightarrow> GaugeMetricProducer \<Rightarrow> MetricDimensionKey \<Rightarrow> bool \<Rightarrow> LogEvent \<Rightarrow> bool
     \<Rightarrow> PullerReply \<Rightarrow> error + GaugeMetricProducer"
where
  "pullAndMatchEventsLocked h p timestampNs (PullerReply ok pulled now) =
     (if \<not> triggerPuller p then Inr p
      else if \<not> ok then Inr p
      else
        (let pullDelayNs = now - timestampNs;
             p1 = p\<lparr>statsdStats := statsdStats p @ [notePullDelay (mPullTagId p) pullDelayNs]\<rparr>
         in if mMaxPullDelayNs p <s pullDelayNs then
              Inr (p1\<lparr>statsdStats := statsdStats p1 @ [notePullExceedMaxDelay (mPullTagId p)]\<rparr>)
            else matchPulledEvents h p1 timestampNs pulled))"
| "matchPulledEvents h p timestampNs [] = Inr p"
| "matchPulledEvents h p timestampNs (PulledEvent d verdict transformed env # rest) =
     (if verdict = kMatched then
        (case onMatchedLogEventLocked h p
                (setElapsedTimestampNs timestampNs
                   (case transformed of None \<Rightarrow> d | Some t \<Rightarrow> t)) env of
           Inl e \<Rightarrow> Inl e
         | Inr p' \<Rightarrow> matchPulledEvents h p' timestampNs rest)
      else matchPulledEvents h p timestampNs rest)"
| "onMatchedLogEventLocked h p event (EventEnv key cond keep reply) =
     (if \<not> mIsActive p then Inr p
      else onMatchedLogEventInternalLocked h p key cond event keep reply)"
| "onMatchedLogEventInternalLocked h p eventKey cond event keep reply =
     (if cond = False then Inr p
      else if mPullTagId p = - 1 \<and> mSamplingPercentage p <s 100 \<and> \<not> keep then Inr p
      else if GetElapsedTimestampNs event <s mCurrentBucketStartTimeNs p then Inr p
      else
        (case flushIfNeededLocked p (GetElapsedTimestampNs event) of
           Inl e \<Rightarrow> Inl e
         | Inr p1 \<Rightarrow>
             if mTriggerAtomId p1 = GetTagId event
             then pullAndMatchEventsLocked h p1 (GetElapsedTimestampNs event) reply
             else Inr (appendGaugeAtom h p1 eventKey event)))"
  by pat_completeness auto

termination
  by (relation "measure (\<lambda>x. case x of
        Inl (Inl (h, p, t, r)) \<Rightarrow> 2 * size r
      | Inl (Inr (h, p, t, ds)) \<Rightarrow> 2 * size_list size ds + 1
      | Inr (Inl (h, p, ev, env)) \<Rightarrow> 2 * size env
      | Inr (Inr (h, p, k, c, ev, keep, r)) \<Rightarrow> 2 * size r + 1)") auto

declare onMatchedLogEventInternalLocked.simps [simp del]

text \<open>\<^verbatim>\<open>onDataPulled\<close>: the loop differs from the one above in that the atoms keep their
  own timestamps.\<close>

fun matchDeliveredEvents ::
  "Helpers \<Rightarrow> GaugeMetricProducer \<Rightarrow> PulledEvent list \<Rightarrow> error + GaugeMetricProducer" where
  "matchDeliveredEvents h p [] = Inr p"
| "matchDeliveredEvents h p (pe # rest) =
     (if matchResult pe = kMatched then
        (case onMatchedLogEventLocked h p
                (case transformedEvent pe of None \<Rightarrow> data pe | Some t \<Rightarrow> t) (matchedEnv pe) of
           Inl e \<Rightarrow> Inl e
         | Inr p' \<Rightarrow> matchDeliveredEvents h p' rest)
      else matchDeliveredEvents h p rest)"

definition onDataPulled ::
  "Helpers \<Rightarrow> GaugeMetricProducer \<Rightarrow> PulledEvent list \<Rightarrow> PullResult \<Rightarrow> int64 \<Rightarrow> int64
     \<Rightarrow> error + GaugeMetricProducer" where
  "onDataPulled h p pulled pullResult originalPullTimeNs now =
     (if pullResult \<noteq> PULL_RESULT_SUCCESS \<or> length pulled = 0 then Inr p
      else
        (let pullDelayNs = now - originalPullTimeNs;
             p1 = p\<lparr>statsdStats := statsdStats p @ [notePullDelay (mPullTagId p) pullDelayNs]\<rparr>
         in if mMaxPullDelayNs p <s pullDelayNs then
              Inr (p1\<lparr>statsdStats := statsdStats p1 @ [notePullExceedMaxDelay (mPullTagId p)]\<rparr>)
            else matchDeliveredEvents h p1 pulled))"

text \<open>Modelled from the spec: \<^verbatim>\<open>isRandomNSamples\<close> is a member of the class declaration,
  which is not part of the sources at hand. The spec speaks of the producer being
  ``pull-type with random sample'', that is, of the sampling type \<open>RANDOM_ONE_SAMPLE\<close>.\<close>

definition isRandomNSamples :: "GaugeMetricProducer \<Rightarrow> bool" where
  "isRandomNSamples p = (mSamplingType p = RANDOM_ONE_SAMPLE)"

definition prepareFirstBucketLocked ::
  "Helpers \<Rightarrow> GaugeMetricProducer \<Rightarrow> PullerReply \<Rightarrow> error + GaugeMetricProducer" where
  "prepareFirstBucketLocked h p reply =
     (if mCondition p = kTrue \<and> mIsActive p \<and> mIsPulled p \<and> isRandomNSamples p
      then pullAndMatchEventsLocked h p (mCurrentBucketStartTimeNs p) reply
      else Inr p)"

text \<open>\<^verbatim>\<open>onActiveStateChangedLocked\<close>, with the body of the base class's method first.\<close>

definition onActiveStateChangedLocked ::
  "Helpers \<Rightarrow> GaugeMetricProducer \<Rightarrow> int64 \<Rightarrow> bool \<Rightarrow> PullerReply
     \<Rightarrow> error + GaugeMetricProducer" where
  "onActiveStateChangedLocked h p eventTimeNs isActive reply =
     (case (if \<not> isActive then flushLocked p eventTimeNs else Inr p) of
        Inl e \<Rightarrow> Inl e
      | Inr p1 \<Rightarrow>
          if kTrue \<noteq> mCondition p1 then Inr p1
          else if isActive \<and> mIsPulled p1 \<and> isRandomNSamples p1
          then pullAndMatchEventsLocked h p1 eventTimeNs reply
          else Inr p1)"

definition onConditionChangedLocked ::
  "Helpers \<Rightarrow> GaugeMetricProducer \<Rightarrow> bool \<Rightarrow> int64 \<Rightarrow> PullerReply
     \<Rightarrow> error + GaugeMetricProducer" where
  "onConditionChangedLocked h p conditionMet eventTimeNs reply =
     (let p1 = p\<lparr>mCondition := (if conditionMet then kTrue else kFalse)\<rparr>
      in if \<not> mIsActive p1 then Inr p1
         else
           (case flushIfNeededLocked p1 eventTimeNs of
              Inl e \<Rightarrow> Inl e
            | Inr p2 \<Rightarrow>
                if conditionMet \<and> mIsPulled p2 \<and>
                   (isRandomNSamples p2 \<or> mSamplingType p2 = CONDITION_CHANGE_TO_TRUE)
                then pullAndMatchEventsLocked h p2 eventTimeNs reply
                else Inr p2))"

definition onSlicedConditionMayChangeLocked ::
  "Helpers \<Rightarrow> GaugeMetricProducer \<Rightarrow> bool \<Rightarrow> int64 \<Rightarrow> PullerReply
     \<Rightarrow> error + GaugeMetricProducer" where
  "onSlicedConditionMayChangeLocked h p overallCondition eventTimeNs reply =
     (let p1 = p\<lparr>mCondition := (if overallCondition then kTrue else kFalse)\<rparr>
      in if \<not> mIsActive p1 then Inr p1
         else
           (case flushIfNeededLocked p1 eventTimeNs of
              Inl e \<Rightarrow> Inl e
            | Inr p2 \<Rightarrow>
                if overallCondition \<and> mIsPulled p2 \<and> mTriggerAtomId p2 = - 1
                then pullAndMatchEventsLocked h p2 eventTimeNs reply
                else Inr p2))"

definition clearPastBucketsLocked ::
  "GaugeMetricProducer \<Rightarrow> int64 \<Rightarrow> error + GaugeMetricProducer" where
  "clearPastBucketsLocked p dumpTimeNs =
     (case flushIfNeededLocked p dumpTimeNs of
        Inl e \<Rightarrow> Inl e
      | Inr p1 \<Rightarrow> Inr (p1\<lparr>mPastBuckets := DAList.empty, mSkippedBuckets := []\<rparr>))"

definition dropDataLocked :: "GaugeMetricProducer \<Rightarrow> int64 \<Rightarrow> error + GaugeMetricProducer" where
  "dropDataLocked p dropTime =
     (case flushIfNeededLocked p dropTime of
        Inl e \<Rightarrow> Inl e
      | Inr p1 \<Rightarrow>
          Inr (p1\<lparr>statsdStats := statsdStats p1 @ [noteBucketDropped (mMetricId p1)],
                  mPastBuckets := DAList.empty\<rparr>))"

section \<open>Report serializer\<close>

text \<open>The report is the sequence of calls made on the \<^verbatim>\<open>ProtoOutputStream\<close>. A field is
  named by its type, its count flag (\<^verbatim>\<open>FIELD_COUNT_REPEATED\<close>, or none or-ed in) and its
  number. The four writers of other files
  (\<^verbatim>\<open>writeDimensionPathToProto\<close>, \<^verbatim>\<open>writeDimensionToProto\<close>,
  \<^verbatim>\<open>writeDimensionLeafNodesToProto\<close>, \<^verbatim>\<open>writeFieldValueTreeToStream\<close>) are recorded as calls
  with their arguments.\<close>

datatype FieldType = FIELD_TYPE_INT64 | FIELD_TYPE_INT32 | FIELD_TYPE_BOOL | FIELD_TYPE_MESSAGE

datatype FieldCount = NO_FIELD_COUNT | FIELD_COUNT_REPEATED

datatype ProtoValue = Int64 int64 | Bool bool | Reason BucketDropReason

datatype ProtoCall =
    Write FieldType FieldCount nat ProtoValue
  | Start FieldType FieldCount nat
  | End
  | writeDimensionPathToProto "Matcher list"
  | writeDimensionToProto HashableDimensionKey
  | writeDimensionLeafNodesToProto HashableDimensionKey nat
  | writeFieldValueTreeToStream int32 "FieldValue list"

definition FIELD_ID_ID :: nat where "FIELD_ID_ID = 1"
definition FIELD_ID_GAUGE_METRICS :: nat where "FIELD_ID_GAUGE_METRICS = 8"
definition FIELD_ID_TIME_BASE :: nat where "FIELD_ID_TIME_BASE = 9"
definition FIELD_ID_BUCKET_SIZE :: nat where "FIELD_ID_BUCKET_SIZE = 10"
definition FIELD_ID_DIMENSION_PATH_IN_WHAT :: nat where "FIELD_ID_DIMENSION_PATH_IN_WHAT = 11"
definition FIELD_ID_IS_ACTIVE :: nat where "FIELD_ID_IS_ACTIVE = 14"
definition FIELD_ID_DIMENSION_GUARDRAIL_HIT :: nat where "FIELD_ID_DIMENSION_GUARDRAIL_HIT = 17"
definition FIELD_ID_DATA :: nat where "FIELD_ID_DATA = 1"
definition FIELD_ID_SKIPPED :: nat where "FIELD_ID_SKIPPED = 2"
definition FIELD_ID_SKIPPED_START_MILLIS :: nat where "FIELD_ID_SKIPPED_START_MILLIS = 3"
definition FIELD_ID_SKIPPED_END_MILLIS :: nat where "FIELD_ID_SKIPPED_END_MILLIS = 4"
definition FIELD_ID_SKIPPED_DROP_EVENT :: nat where "FIELD_ID_SKIPPED_DROP_EVENT = 5"
definition FIELD_ID_BUCKET_DROP_REASON :: nat where "FIELD_ID_BUCKET_DROP_REASON = 1"
definition FIELD_ID_DROP_TIME :: nat where "FIELD_ID_DROP_TIME = 2"
definition FIELD_ID_DIMENSION_IN_WHAT :: nat where "FIELD_ID_DIMENSION_IN_WHAT = 1"
definition FIELD_ID_BUCKET_INFO :: nat where "FIELD_ID_BUCKET_INFO = 3"
definition FIELD_ID_DIMENSION_LEAF_IN_WHAT :: nat where "FIELD_ID_DIMENSION_LEAF_IN_WHAT = 4"
definition FIELD_ID_BUCKET_NUM :: nat where "FIELD_ID_BUCKET_NUM = 6"
definition FIELD_ID_START_BUCKET_ELAPSED_MILLIS :: nat where
  "FIELD_ID_START_BUCKET_ELAPSED_MILLIS = 7"
definition FIELD_ID_END_BUCKET_ELAPSED_MILLIS :: nat where
  "FIELD_ID_END_BUCKET_ELAPSED_MILLIS = 8"
definition FIELD_ID_AGGREGATED_ATOM :: nat where "FIELD_ID_AGGREGATED_ATOM = 9"
definition FIELD_ID_ATOM_VALUE :: nat where "FIELD_ID_ATOM_VALUE = 1"
definition FIELD_ID_ATOM_TIMESTAMPS :: nat where "FIELD_ID_ATOM_TIMESTAMPS = 2"

text \<open>Modelled from the spec: \<^verbatim>\<open>NanoToMillis\<close> belongs to a file that is not part of the
  sources at hand. Bucket times are emitted as millisecond-truncated integers.\<close>

definition NanoToMillis :: "int64 \<Rightarrow> int64" where
  "NanoToMillis nano = sdiv64 nano 1000000"

text \<open>The bodies of the loops of \<^verbatim>\<open>onDumpReportLocked\<close>, innermost first.\<close>

definition writeDropEvent :: "DropEvent \<Rightarrow> ProtoCall list" where
  "writeDropEvent dropEvent =
     [Start FIELD_TYPE_MESSAGE FIELD_COUNT_REPEATED FIELD_ID_SKIPPED_DROP_EVENT,
      Write FIELD_TYPE_INT32 NO_FIELD_COUNT FIELD_ID_BUCKET_DROP_REASON
        (Reason (reason dropEvent)),
      Write FIELD_TYPE_INT64 NO_FIELD_COUNT FIELD_ID_DROP_TIME
        (Int64 (NanoToMillis (dropTimeNs dropEvent))),
      End]"

definition writeSkippedBucket :: "SkippedBucket \<Rightarrow> ProtoCall list" where
  "writeSkippedBucket skippedBucket =
     [Start FIELD_TYPE_MESSAGE FIELD_COUNT_REPEATED FIELD_ID_SKIPPED,
      Write FIELD_TYPE_INT64 NO_FIELD_COUNT FIELD_ID_SKIPPED_START_MILLIS
        (Int64 (NanoToMillis (bucketStartTimeNs skippedBucket))),
      Write FIELD_TYPE_INT64 NO_FIELD_COUNT FIELD_ID_SKIPPED_END_MILLIS
        (Int64 (NanoToMillis (bucketEndTimeNs skippedBucket)))]
     @ concat (map writeDropEvent (dropEvents skippedBucket))
     @ [End]"

definition writeAggregatedAtom ::
  "GaugeMetricProducer \<Rightarrow> AtomDimensionKey \<times> int64 list \<Rightarrow> ProtoCall list" where
  "writeAggregatedAtom p entry =
     [Start FIELD_TYPE_MESSAGE FIELD_COUNT_REPEATED FIELD_ID_AGGREGATED_ATOM,
      Start FIELD_TYPE_MESSAGE NO_FIELD_COUNT FIELD_ID_ATOM_VALUE,
      writeFieldValueTreeToStream (mAtomId p) (getAtomFieldValues (fst entry)),
      End]
     @ map (\<lambda>timestampNs.
              Write FIELD_TYPE_INT64 FIELD_COUNT_REPEATED FIELD_ID_ATOM_TIMESTAMPS
                (Int64 timestampNs))
           (snd entry)
     @ [End]"

text \<open>The time fields of one \<^verbatim>\<open>bucket_info\<close>: explicit times, or the bucket number.\<close>

definition writeBucketTimes :: "GaugeMetricProducer \<Rightarrow> GaugeBucket \<Rightarrow> error + ProtoCall list"
  where
  "writeBucketTimes p bucket =
     (if mBucketEndNs bucket - mBucketStartNs bucket \<noteq> mBucketSizeNs p then
        Inr [Write FIELD_TYPE_INT64 NO_FIELD_COUNT FIELD_ID_START_BUCKET_ELAPSED_MILLIS
               (Int64 (NanoToMillis (mBucketStartNs bucket))),
             Write FIELD_TYPE_INT64 NO_FIELD_COUNT FIELD_ID_END_BUCKET_ELAPSED_MILLIS
               (Int64 (NanoToMillis (mBucketEndNs bucket)))]
      else
        (case getBucketNumFromEndTimeNs p (mBucketEndNs bucket) of
           Inl e \<Rightarrow> Inl e
         | Inr n \<Rightarrow> Inr [Write FIELD_TYPE_INT64 NO_FIELD_COUNT FIELD_ID_BUCKET_NUM (Int64 n)]))"

definition writeBucketInfo :: "GaugeMetricProducer \<Rightarrow> GaugeBucket \<Rightarrow> error + ProtoCall list"
  where
  "writeBucketInfo p bucket =
     (case writeBucketTimes p bucket of
        Inl e \<Rightarrow> Inl e
      | Inr timeFields \<Rightarrow>
          Inr ([Start FIELD_TYPE_MESSAGE FIELD_COUNT_REPEATED FIELD_ID_BUCKET_INFO]
               @ timeFields
               @ concat (map (writeAggregatedAtom p) (DAList.impl_of (mAggregatedAtoms bucket)))
               @ [End]))"

text \<open>A loop whose body may fail: the calls made so far are lost with the process.\<close>

fun collect :: "('a \<Rightarrow> error + 'b list) \<Rightarrow> 'a list \<Rightarrow> error + 'b list" where
  "collect f [] = Inr []"
| "collect f (x # xs) =
     (case f x of
        Inl e \<Rightarrow> Inl e
      | Inr ys \<Rightarrow> (case collect f xs of Inl e \<Rightarrow> Inl e | Inr zs \<Rightarrow> Inr (ys @ zs)))"

definition writeData ::
  "GaugeMetricProducer \<Rightarrow> MetricDimensionKey \<times> GaugeBucket list \<Rightarrow> error + ProtoCall list"
  where
  "writeData p pair =
     (case collect (writeBucketInfo p) (snd pair) of
        Inl e \<Rightarrow> Inl e
      | Inr infos \<Rightarrow>
          Inr ([Start FIELD_TYPE_MESSAGE FIELD_COUNT_REPEATED FIELD_ID_DATA]
               @ (if mShouldUseNestedDimensions p then
                    [Start FIELD_TYPE_MESSAGE NO_FIELD_COUNT FIELD_ID_DIMENSION_IN_WHAT,
                     writeDimensionToProto (getDimensionKeyInWhat (fst pair)),
                     End]
                  else
                    [writeDimensionLeafNodesToProto (getDimensionKeyInWhat (fst pair))
                       FIELD_ID_DIMENSION_LEAF_IN_WHAT])
               @ infos
               @ [End]))"

text \<open>\<^verbatim>\<open>onDumpReportLocked\<close>: the producer after the call and the calls made on the output
  stream.\<close>

definition onDumpReportLocked ::
  "GaugeMetricProducer \<Rightarrow> int64 \<Rightarrow> bool \<Rightarrow> bool
     \<Rightarrow> error + (GaugeMetricProducer \<times> ProtoCall list)" where
  "onDumpReportLocked p dumpTimeNs include_current_partial_bucket erase_data =
     (case (if include_current_partial_bucket then flushLocked p dumpTimeNs
            else flushIfNeededLocked p dumpTimeNs) of
        Inl e \<Rightarrow> Inl e
      | Inr p1 \<Rightarrow>
          (let header =
                 [Write FIELD_TYPE_INT64 NO_FIELD_COUNT FIELD_ID_ID (Int64 (mMetricId p1)),
                  Write FIELD_TYPE_BOOL NO_FIELD_COUNT FIELD_ID_IS_ACTIVE
                    (Bool (mIsActive p1))]
           in if msize (mPastBuckets p1) = 0 \<and> mSkippedBuckets p1 = [] then Inr (p1, header)
              else
                (case collect (writeData p1) (DAList.impl_of (mPastBuckets p1)) of
                   Inl e \<Rightarrow> Inl e
                 | Inr dataCalls \<Rightarrow>
                     Inr (if erase_data
                          then p1\<lparr>mPastBuckets := DAList.empty,
                                  mSkippedBuckets := [],
                                  mDimensionGuardrailHit := False\<rparr>
                          else p1,
                          header
                          @ (if mDimensionGuardrailHit p1
                             then [Write FIELD_TYPE_BOOL NO_FIELD_COUNT
                                     FIELD_ID_DIMENSION_GUARDRAIL_HIT
                                     (Bool (mDimensionGuardrailHit p1))]
                             else [])
                          @ [Write FIELD_TYPE_INT64 NO_FIELD_COUNT FIELD_ID_TIME_BASE
                               (Int64 (mTimeBaseNs p1)),
                             Write FIELD_TYPE_INT64 NO_FIELD_COUNT FIELD_ID_BUCKET_SIZE
                               (Int64 (mBucketSizeNs p1))]
                          @ (if \<not> mShouldUseNestedDimensions p1 \<and> mDimensionsInWhat p1 \<noteq> []
                             then [Start FIELD_TYPE_MESSAGE NO_FIELD_COUNT
                                     FIELD_ID_DIMENSION_PATH_IN_WHAT,
                                   writeDimensionPathToProto (mDimensionsInWhat p1),
                                   End]
                             else [])
                          @ [Start FIELD_TYPE_MESSAGE NO_FIELD_COUNT FIELD_ID_GAUGE_METRICS]
                          @ concat (map writeSkippedBucket (mSkippedBuckets p1))
                          @ dataCalls
                          @ [End]))))"

section \<open>Operations on a producer\<close>

text \<open>The entry points through which the bucket state changes, each with the answers of
  the environment that it consumes. \<open>FlushLocked\<close> stands for the callers of
  \<^verbatim>\<open>flushLocked\<close> in the base class (\<^verbatim>\<open>onStatsdInitCompleted\<close>, the app-upgrade handler).
  The assignment of \<open>mIsActive\<close> that precedes \<^verbatim>\<open>onActiveStateChangedLocked\<close> is made by
  the activation code of the base class, in a file that is not part of the sources at
  hand; \<open>OnActiveStateChanged\<close> is the call alone. \<^verbatim>\<open>onConfigUpdatedLocked\<close> starts with the
  base-class update of the same file and ends with the conditional pull of
  \<^verbatim>\<open>prepareFirstBucketLocked\<close>; it has no operation of its own.\<close>

datatype Operation =
    OnMatchedLogEvent LogEvent EventEnv
  | OnConditionChanged bool int64 PullerReply
  | OnSlicedConditionMayChange bool int64 PullerReply
  | OnActiveStateChanged int64 bool PullerReply
  | OnDataPulled "PulledEvent list" PullResult int64 int64
  | OnDumpReport int64 bool bool
  | DropData int64
  | ClearPastBuckets int64
  | PrepareFirstBucket PullerReply
  | FlushLocked int64

fun step :: "Helpers \<Rightarrow> GaugeMetricProducer \<Rightarrow> Operation \<Rightarrow> error + GaugeMetricProducer" where
  "step h p (OnMatchedLogEvent event env) = onMatchedLogEventLocked h p event env"
| "step h p (OnConditionChanged conditionMet t reply) =
     onConditionChangedLocked h p conditionMet t reply"
| "step h p (OnSlicedConditionMayChange overall t reply) =
     onSlicedConditionMayChangeLocked h p overall t reply"
| "step h p (OnActiveStateChanged t isActive reply) =
     onActiveStateChangedLocked h p t isActive reply"
| "step h p (OnDataPulled pulled pullResult originalPullTimeNs now) =
     onDataPulled h p pulled pullResult originalPullTimeNs now"
| "step h p (OnDumpReport t partial erase) =
     (case onDumpReportLocked p t partial erase of Inl e \<Rightarrow> Inl e | Inr (p', out) \<Rightarrow> Inr p')"
| "step h p (DropData t) = dropDataLocked p t"
| "step h p (ClearPastBuckets t) = clearPastBucketsLocked p t"
| "step h p (PrepareFirstBucket reply) = prepareFirstBucketLocked h p reply"
| "step h p (FlushLocked t) = flushLocked p t"

fun run :: "Helpers \<Rightarrow> GaugeMetricProducer \<Rightarrow> Operation list \<Rightarrow> error + GaugeMetricProducer"
  where
  "run h p [] = Inr p"
| "run h p (operation # rest) =
     (case step h p operation of Inl e \<Rightarrow> Inl e | Inr p' \<Rightarrow> run h p' rest)"

section \<open>The grouping of a bucket's atoms, in the words of the spec\<close>

text \<open>``Group by \<open>AtomDimensionKey\<close>, collect timestamps preserving insertion order'': the
  timestamps stored under a key are those of the atoms that have this key, in the order of
  the atoms. The loop \<open>aggregateAtoms\<close> of the source is compared with this definition.\<close>

definition groupedTimestamps :: "int32 \<Rightarrow> GaugeAtom list \<Rightarrow> AtomDimensionKey \<Rightarrow> int64 list" where
  "groupedTimestamps atomId atoms key =
     map mElapsedTimestampNs
       (filter (\<lambda>atom. AtomDimensionKey atomId (mFields atom) = key) atoms)"

section \<open>Reading a report\<close>

text \<open>A field number is written in a sequence of calls if some \<open>Write\<close> of the sequence
  names it.\<close>

definition fieldWritten :: "nat \<Rightarrow> ProtoCall list \<Rightarrow> bool" where
  "fieldWritten fieldId calls =
     list_ex (\<lambda>call. case call of Write ty cnt fid v \<Rightarrow> fid = fieldId | _ \<Rightarrow> False) calls"

section \<open>Invariants of the current bucket\<close>

text \<open>Two producers agree on the configuration that governs the current bucket.\<close>

definition sameBucketConfig :: "GaugeMetricProducer \<Rightarrow> GaugeMetricProducer \<Rightarrow> bool" where
  "sameBucketConfig p q =
     (mDimensionSoftLimit q = mDimensionSoftLimit p \<and>
      mDimensionHardLimit q = mDimensionHardLimit p \<and>
      mSamplingType q = mSamplingType p)"

text \<open>The current bucket holds at most \<open>hard\<close> dimension keys, under the given limits.\<close>

definition withinHardLimit :: "nat \<Rightarrow> nat \<Rightarrow> GaugeMetricProducer \<Rightarrow> bool" where
  "withinHardLimit soft hard p =
     (mDimensionSoftLimit p = soft \<and> mDimensionHardLimit p = hard \<and>
      msize (mCurrentSlicedBucket p) \<le> hard)"

text \<open>Every dimension of the current bucket holds at most one gauge atom.\<close>

definition oneAtomPerDimension :: "GaugeMetricProducer \<Rightarrow> bool" where
  "oneAtomPerDimension p =
     list_all (\<lambda>slice. length (snd slice) \<le> 1) (DAList.impl_of (mCurrentSlicedBucket p))"

text \<open>Any number of calls of \<^verbatim>\<open>pullAndMatchEventsLocked\<close>, one after the other, each with
  its pull time and the reply the puller would give.\<close>

fun pullAndMatchRepeatedly ::
  "Helpers \<Rightarrow> GaugeMetricProducer \<Rightarrow> (int64 \<times> PullerReply) list \<Rightarrow> error + GaugeMetricProducer"
  where
  "pullAndMatchRepeatedly h p [] = Inr p"
| "pullAndMatchRepeatedly h p ((timestampNs, reply) # rest) =
     (case pullAndMatchEventsLocked h p timestampNs reply of
        Inl e \<Rightarrow> Inl e
      | Inr p' \<Rightarrow> pullAndMatchRepeatedly h p' rest)"

section \<open>When a flush is defined\<close>

text \<open>\<^verbatim>\<open>updateCurrentSlicedBucketForAnomaly\<close> reads the first field of the first atom of
  every slice. With anomaly trackers attached, a flush is therefore defined only if every
  non-empty slice starts with an atom that has a field.\<close>

definition frontFieldsPresent :: "(MetricDimensionKey \<times> GaugeAtom list) list \<Rightarrow> bool" where
  "frontFieldsPresent slices =
     list_all (\<lambda>slice. case snd slice of [] \<Rightarrow> True | a # _ \<Rightarrow> mFields a \<noteq> []) slices"

definition anomalyProjectionDefined :: "GaugeMetricProducer \<Rightarrow> bool" where
  "anomalyProjectionDefined p =
     (mAnomalyTrackers p = [] \<or> frontFieldsPresent (DAList.impl_of (mCurrentSlicedBucket p)))"

section \<open>Concrete producers\<close>

text \<open>A push-mode producer with time base 0 and buckets of 10 ns, in its first bucket and
  without data; the statements below are evaluated on it and on variants of it.\<close>

definition producer0 :: GaugeMetricProducer where
  "producer0 =
     \<lparr>mMetricId = 1, mTimeBaseNs = 0, mCurrentBucketStartTimeNs = 0, mCurrentBucketNum = 0,
      mBucketSizeNs = 10, mCondition = kTrue, mShouldUseNestedDimensions = False,
      mDimensionsInWhat = [], mAnomalyTrackers = [], mIsActive = True,
      mCurrentSkippedBucket = \<lparr>bucketStartTimeNs = 0, bucketEndTimeNs = 0, dropEvents = []\<rparr>,
      mSkippedBuckets = [], mHasHitGuardrail = False, mPullTagId = - 1, mTriggerAtomId = - 1,
      mAtomId = 7, mIsPulled = False, mMinBucketSizeNs = 0, mSamplingType = FIRST_N_SAMPLES,
      mMaxPullDelayNs = 50, mDimensionSoftLimit = 1, mDimensionHardLimit = 2,
      mGaugeAtomsPerDimensionLimit = 3, mDimensionGuardrailHit = False,
      mSamplingPercentage = 100, mFieldMatchers = [],
      mCurrentSlicedBucket = DAList.empty, mCurrentSlicedBucketForAnomaly = DAList.empty,
      mPastBuckets = DAList.empty, statsdStats = [], anomalyCalls = []\<rparr>"

text \<open>Helpers that keep every value and never match, a puller that fails, two dimension
  keys, a pull-mode producer that samples one atom per bucket, an atom with one integer
  field, and a producer whose buckets are always too small.\<close>

definition helpers0 :: Helpers where
  "helpers0 =
     \<lparr>truncateTimestampIfNecessary = GetElapsedTimestampNs,
      filterGaugeValues = (\<lambda>matchers values. values),
      matches = (\<lambda>field matcher. False)\<rparr>"

definition noPull :: PullerReply where
  "noPull = PullerReply False [] 0"

definition keyA :: MetricDimensionKey where
  "keyA = MetricDimensionKey [\<lparr>mField = Field 7 1, mValue = INT_value 1\<rparr>] []"

definition keyB :: MetricDimensionKey where
  "keyB = MetricDimensionKey [\<lparr>mField = Field 7 1, mValue = INT_value 2\<rparr>] []"

definition pulledProducer :: GaugeMetricProducer where
  "pulledProducer =
     producer0\<lparr>mPullTagId := 7, mIsPulled := True, mSamplingType := RANDOM_ONE_SAMPLE\<rparr>"

definition atomEvent :: "int64 \<Rightarrow> int32 \<Rightarrow> LogEvent" where
  "atomEvent t v = LogEvent 7 t [\<lparr>mField = Field 7 2, mValue = INT_value v\<rparr>]"

definition smallBucketProducer :: GaugeMetricProducer where
  "smallBucketProducer = producer0\<lparr>mMinBucketSizeNs := 100, mDimensionGuardrailHit := True\<rparr>"

text \<open>A producer whose current bucket holds, under one dimension, three atoms with the
  same field values and the timestamps 1, 3 and 9.\<close>

definition gaugeAtomAt :: "int64 \<Rightarrow> GaugeAtom" where
  "gaugeAtomAt t =
     \<lparr>mFields = [\<lparr>mField = Field 7 2, mValue = INT_value 3\<rparr>], mElapsedTimestampNs = t\<rparr>"

definition filledProducer :: GaugeMetricProducer where
  "filledProducer =
     producer0\<lparr>mCurrentSlicedBucket :=
                 DAList.update keyA [gaugeAtomAt 1, gaugeAtomAt 3, gaugeAtomAt 9] DAList.empty\<rparr>"

text \<open>A third dimension key, a producer with one anomaly tracker attached, an atom whose
  only field is a string, and the delivery of a matched atom under a given dimension.\<close>

definition keyC :: MetricDimensionKey where
  "keyC = MetricDimensionKey [\<lparr>mField = Field 7 1, mValue = INT_value 3\<rparr>] []"

definition trackerProducer :: GaugeMetricProducer where
  "trackerProducer = producer0\<lparr>mAnomalyTrackers := [0]\<rparr>"

definition stringEvent :: LogEvent where
  "stringEvent = LogEvent 7 5 [\<lparr>mField = Field 7 2, mValue = STRING_value ''a''\<rparr>]"

definition keyEvent :: "int64 \<Rightarrow> MetricDimensionKey \<Rightarrow> Operation" where
  "keyEvent t key = OnMatchedLogEvent (atomEvent t 3) (EventEnv key True True noPull)"

text \<open>The past bucket that the flush of \<open>filledProducer\<close> at 11 produces.\<close>

definition flushedBucket :: GaugeBucket where
  "flushedBucket =
     \<lparr>mBucketStartNs = 0, mBucketEndNs = 10,
      mAggregatedAtoms =
        DAList.update (AtomDimensionKey 7 [\<lparr>mField = Field 7 2, mValue = INT_value 3\<rparr>])
          [1, 3, 9] DAList.empty\<rparr>"

text \<open>A successful pull issued at \<open>t\<close> that returns one matching atom one nanosecond
  later, and the pull-mode producer after its first pull at 2.\<close>

definition pullReply :: "int64 \<Rightarrow> PullerReply" where
  "pullReply t =
     PullerReply True
       [PulledEvent (atomEvent t 3) kMatched None (EventEnv keyA True True noPull)] (t + 1)"

definition sampledProducer :: GaugeMetricProducer where
  "sampledProducer =
     pulledProducer
       \<lparr>mCurrentSlicedBucket :=
          DAList.update keyA [\<lparr>mFields = [\<lparr>mField = Field 7 2, mValue = INT_value 3\<rparr>],
                               mElapsedTimestampNs = 2\<rparr>] DAList.empty,
        statsdStats := [notePullDelay 7 1]\<rparr>"

section \<open>Properties of the bucket engine\<close>

lemma div64_pos: "0 <s b \<Longrightarrow> div64 a b = Inr (sdiv64 a b)"
  by (auto simp: div64_def word_sless_alt)

text \<open>What the parts of a flush leave alone.\<close>

lemma closeBucket_frame:
  "mCurrentBucketNum (closeBucket p t) = mCurrentBucketNum p"
  "mDimensionGuardrailHit (closeBucket p t) = mDimensionGuardrailHit p"
  "mCurrentSlicedBucket (closeBucket p t) = mCurrentSlicedBucket p"
  "mAnomalyTrackers (closeBucket p t) = mAnomalyTrackers p"
  "mBucketSizeNs (closeBucket p t) = mBucketSizeNs p"
  "mTimeBaseNs (closeBucket p t) = mTimeBaseNs p"
  "mDimensionSoftLimit (closeBucket p t) = mDimensionSoftLimit p"
  "mDimensionHardLimit (closeBucket p t) = mDimensionHardLimit p"
  "mSamplingType (closeBucket p t) = mSamplingType p"
  by (simp_all add: closeBucket_def Let_def)

lemma updateAnomalyTrackers_frame:
  assumes "updateAnomalyTrackers p t = Inr p'"
  shows "mCurrentBucketNum p' = mCurrentBucketNum p"
    and "mDimensionGuardrailHit p' = mDimensionGuardrailHit p"
    and "mPastBuckets p' = mPastBuckets p"
    and "mSkippedBuckets p' = mSkippedBuckets p"
    and "mBucketSizeNs p' = mBucketSizeNs p"
    and "mTimeBaseNs p' = mTimeBaseNs p"
    and "mDimensionSoftLimit p' = mDimensionSoftLimit p"
    and "mDimensionHardLimit p' = mDimensionHardLimit p"
    and "mSamplingType p' = mSamplingType p"
  using assms by (auto simp: updateAnomalyTrackers_def split: if_splits sum.splits)

lemma flushCurrentBucketLocked_frame:
  assumes "flushCurrentBucketLocked p t n = Inr p'"
  shows "mCurrentBucketNum p' = mCurrentBucketNum p"
    and "mDimensionGuardrailHit p' = mDimensionGuardrailHit p"
    and "mCurrentSlicedBucket p' = DAList.empty"
    and "mCurrentBucketStartTimeNs p' = n"
    and "mBucketSizeNs p' = mBucketSizeNs p"
    and "mTimeBaseNs p' = mTimeBaseNs p"
    and "mDimensionSoftLimit p' = mDimensionSoftLimit p"
    and "mDimensionHardLimit p' = mDimensionHardLimit p"
    and "mSamplingType p' = mSamplingType p"
  using assms
  by (auto simp: flushCurrentBucketLocked_def closeBucket_frame
           dest: updateAnomalyTrackers_frame split: sum.splits)

text \<open>
  \<^bold>\<open>Claim C1.\<close> With \<open>endNs = timeBaseNs + (currentBucketNum + 1) * bucketSizeNs\<close>:
  an event time before \<open>endNs\<close> leaves the producer as it is. Otherwise, where the quotient
  is defined, \<^verbatim>\<open>flushIfNeededLocked\<close> computes
  \<open>numForward = 1 + (eventTimeNs - endNs) / bucketSizeNs\<close> and
  \<open>nextStartNs = endNs + (numForward - 1) * bucketSizeNs\<close>, runs
  \<^verbatim>\<open>flushCurrentBucketLocked(eventTimeNs, nextStartNs)\<close>, and then adds \<open>numForward\<close> to the
  bucket number the producer had before the call.
\<close>

theorem flushIfNeededLocked_spec:
  assumes "endNs = mTimeBaseNs p + (mCurrentBucketNum p + 1) * mBucketSizeNs p"
  shows "(eventTimeNs <s endNs \<longrightarrow> flushIfNeededLocked p eventTimeNs = Inr p) \<and>
    (\<not> eventTimeNs <s endNs \<and> mBucketSizeNs p \<noteq> 0 \<and>
     \<not> (eventTimeNs - endNs = - (2 ^ 63) \<and> mBucketSizeNs p = - 1) \<and>
     numForward = 1 + sdiv64 (eventTimeNs - endNs) (mBucketSizeNs p) \<and>
     nextStartNs = endNs + (numForward - 1) * mBucketSizeNs p \<longrightarrow>
       flushIfNeededLocked p eventTimeNs =
         (case flushCurrentBucketLocked p eventTimeNs nextStartNs of
            Inl e \<Rightarrow> Inl e
          | Inr p' \<Rightarrow> Inr (p'\<lparr>mCurrentBucketNum := mCurrentBucketNum p + numForward\<rparr>)))"
  using assms
  by (auto simp: flushIfNeededLocked_def getCurrentBucketEndTimeNs_def div64_def Let_def
           dest: flushCurrentBucketLocked_frame(1) split: sum.splits)

text \<open>On \<open>producer0\<close> the first bucket ends at 10: an event at 5 changes nothing, an event
  at 25 crosses two boundaries and opens the bucket that starts at 20.\<close>

theorem flushIfNeededLocked_spec_witness:
  "(5 :: int64) <s 10 \<and> \<not> (25 :: int64) <s 10 \<and>
   flushIfNeededLocked producer0 5 = Inr producer0 \<and>
   flushIfNeededLocked producer0 25 =
     Inr (producer0\<lparr>statsdStats := [noteBucketCount 1], mCurrentBucketStartTimeNs := 20,
                    mCurrentBucketNum := 2\<rparr>)"
  using flushIfNeededLocked_spec [of 10 producer0 5 2 20]
        flushIfNeededLocked_spec [of 10 producer0 25 2 20]
  by (simp add: producer0_def sdiv64_def signed_divide_int_def flushCurrentBucketLocked_def
        updateAnomalyTrackers_def closeBucket_def isBucketLargeEnough_def bucketEndTime_def
        getCurrentBucketEndTimeNs_def reset_def DAList.empty.rep_eq word_sle_eq word_sless_alt)

lemma updateCurrentSlicedBucketForAnomaly_total:
  "frontFieldsPresent slices \<Longrightarrow> \<exists>m'. updateCurrentSlicedBucketForAnomaly slices m = Inr m'"
proof (induction slices arbitrary: m)
  case Nil
  then show ?case by simp
next
  case (Cons slice slices)
  obtain k atoms where slice: "slice = (k, atoms)" by (cases slice)
  from Cons.prems have rest: "frontFieldsPresent slices"
    by (simp add: frontFieldsPresent_def)
  show ?case
  proof (cases atoms)
    case Nil
    with slice Cons.IH [OF rest] show ?thesis by simp
  next
    case (Cons a as)
    with slice Cons.prems have "mFields a \<noteq> []"
      by (simp add: frontFieldsPresent_def)
    then obtain fv fvs where "mFields a = fv # fvs" by (cases "mFields a") auto
    with slice Cons Cons.IH [OF rest] show ?thesis by simp
  qed
qed

lemma updateAnomalyTrackers_total:
  "anomalyProjectionDefined p \<Longrightarrow> \<exists>p'. updateAnomalyTrackers p t = Inr p'"
  using updateCurrentSlicedBucketForAnomaly_total
    [of "DAList.impl_of (mCurrentSlicedBucket p)" "mCurrentSlicedBucketForAnomaly p"]
  by (auto simp: updateAnomalyTrackers_def anomalyProjectionDefined_def)

lemma anomalyProjectionDefined_closeBucket:
  "anomalyProjectionDefined (closeBucket p t) = anomalyProjectionDefined p"
  by (simp add: anomalyProjectionDefined_def closeBucket_frame)

lemma flushCurrentBucketLocked_total:
  "anomalyProjectionDefined p \<Longrightarrow> \<exists>p'. flushCurrentBucketLocked p t n = Inr p'"
  using updateAnomalyTrackers_total [of "closeBucket p t" t]
  by (auto simp: flushCurrentBucketLocked_def anomalyProjectionDefined_closeBucket)

lemma anomalyProjectionDefined_empty:
  "mCurrentSlicedBucket p = DAList.empty \<Longrightarrow> anomalyProjectionDefined p"
  by (simp add: anomalyProjectionDefined_def frontFieldsPresent_def DAList.empty.rep_eq)

lemma flushIfNeededLocked_cases:
  assumes "flushIfNeededLocked p t = Inr p'"
  shows "p' = p \<or> mCurrentSlicedBucket p' = DAList.empty"
  using assms
  by (auto simp: flushIfNeededLocked_def Let_def
           dest: flushCurrentBucketLocked_frame(3) split: if_splits sum.splits)

lemma flushIfNeededLocked_frame:
  assumes "flushIfNeededLocked p t = Inr p'"
  shows "mDimensionGuardrailHit p' = mDimensionGuardrailHit p"
    and "mBucketSizeNs p' = mBucketSizeNs p"
    and "mTimeBaseNs p' = mTimeBaseNs p"
    and "mDimensionSoftLimit p' = mDimensionSoftLimit p"
    and "mDimensionHardLimit p' = mDimensionHardLimit p"
    and "mSamplingType p' = mSamplingType p"
  using assms
  by (auto simp: flushIfNeededLocked_def Let_def
           dest: flushCurrentBucketLocked_frame split: if_splits sum.splits)

lemma flushIfNeededLocked_total:
  assumes "0 <s mBucketSizeNs p" and "anomalyProjectionDefined p"
  shows "\<exists>p'. flushIfNeededLocked p t = Inr p'"
proof (cases "t <s getCurrentBucketEndTimeNs p")
  case True
  then show ?thesis by (simp add: flushIfNeededLocked_def)
next
  case False
  define q where "q = sdiv64 (t - getCurrentBucketEndTimeNs p) (mBucketSizeNs p)"
  obtain p1 where
    "flushCurrentBucketLocked p t
       (getCurrentBucketEndTimeNs p + (1 + q - 1) * mBucketSizeNs p) = Inr p1"
    using flushCurrentBucketLocked_total [OF assms(2)] by blast
  with False show ?thesis
    by (simp add: flushIfNeededLocked_def Let_def div64_pos [OF assms(1)] q_def)
qed

lemma flushIfNeededLocked_ready:
  assumes "flushIfNeededLocked p t = Inr p'" and "anomalyProjectionDefined p"
  shows "anomalyProjectionDefined p'"
  using flushIfNeededLocked_cases [OF assms(1)] assms(2) anomalyProjectionDefined_empty
  by auto

lemma flushLocked_total:
  assumes "0 <s mBucketSizeNs p" and "anomalyProjectionDefined p"
  shows "\<exists>p'. flushLocked p t = Inr p'"
proof -
  obtain p1 where p1: "flushIfNeededLocked p t = Inr p1"
    using flushIfNeededLocked_total [OF assms] by blast
  obtain p2 where "flushCurrentBucketLocked p1 t t = Inr p2"
    using flushCurrentBucketLocked_total [OF flushIfNeededLocked_ready [OF p1 assms(2)]] by blast
  with p1 show ?thesis by (simp add: flushLocked_def)
qed

lemma flushLocked_frame:
  assumes "flushLocked p t = Inr p'"
  shows "mDimensionGuardrailHit p' = mDimensionGuardrailHit p"
    and "mBucketSizeNs p' = mBucketSizeNs p"
    and "mTimeBaseNs p' = mTimeBaseNs p"
    and "mDimensionSoftLimit p' = mDimensionSoftLimit p"
    and "mDimensionHardLimit p' = mDimensionHardLimit p"
    and "mSamplingType p' = mSamplingType p"
    and "mCurrentSlicedBucket p' = DAList.empty"
proof -
  from assms obtain p1 where p1: "flushIfNeededLocked p t = Inr p1"
    and p': "flushCurrentBucketLocked p1 t t = Inr p'"
    by (auto simp: flushLocked_def split: sum.splits)
  note a = flushIfNeededLocked_frame [OF p1] and b = flushCurrentBucketLocked_frame [OF p']
  show "mDimensionGuardrailHit p' = mDimensionGuardrailHit p" using a b by simp
  show "mBucketSizeNs p' = mBucketSizeNs p" using a b by simp
  show "mTimeBaseNs p' = mTimeBaseNs p" using a b by simp
  show "mDimensionSoftLimit p' = mDimensionSoftLimit p" using a b by simp
  show "mDimensionHardLimit p' = mDimensionHardLimit p" using a b by simp
  show "mSamplingType p' = mSamplingType p" using a b by simp
  show "mCurrentSlicedBucket p' = DAList.empty" using b by simp
qed

lemma at_update: "at (DAList.update k v m) k' = (if k' = k then v else at m k')"
  by (simp add: at_def)

lemma contains_update: "contains (DAList.update k v m) k' \<longleftrightarrow> k' = k \<or> contains m k'"
  by (cases "k' = k") (simp_all add: contains_def)

lemma contains_empty: "\<not> contains DAList.empty k"
  by (simp add: contains_def)

lemma aggregateAtoms_at:
  "at (aggregateAtoms atomId atoms m) key = at m key @ groupedTimestamps atomId atoms key"
  by (induction atoms arbitrary: m) (auto simp: groupedTimestamps_def Let_def at_update)

lemma aggregateAtoms_contains:
  "contains (aggregateAtoms atomId atoms m) key \<longleftrightarrow>
     contains m key \<or> (\<exists>atom \<in> set atoms. AtomDimensionKey atomId (mFields atom) = key)"
  by (induction atoms arbitrary: m) (auto simp: Let_def contains_update)

lemma aggregateAtoms_lookup:
  "DAList.lookup (aggregateAtoms atomId atoms DAList.empty) key =
     (if groupedTimestamps atomId atoms key = [] then None
      else Some (groupedTimestamps atomId atoms key))"
proof -
  have c: "contains (aggregateAtoms atomId atoms DAList.empty) key \<longleftrightarrow>
             groupedTimestamps atomId atoms key \<noteq> []"
    by (auto simp: aggregateAtoms_contains contains_empty groupedTimestamps_def
          filter_empty_conv)
  have "at (DAList.empty :: (AtomDimensionKey, int64 list) alist) key = []"
    by (simp add: at_def)
  then have a: "at (aggregateAtoms atomId atoms DAList.empty) key =
                  groupedTimestamps atomId atoms key"
    by (simp add: aggregateAtoms_at)
  show ?thesis
    using c a by (auto simp: contains_def at_def split: option.splits)
qed

lemma flushSlices_lookup:
  "distinct (map fst slices) \<Longrightarrow>
   DAList.lookup (flushSlices atomId info slices past) dim =
     (case map_of slices dim of
        None \<Rightarrow> DAList.lookup past dim
      | Some atoms \<Rightarrow>
          Some (at past dim @
                [info\<lparr>mAggregatedAtoms := aggregateAtoms atomId atoms DAList.empty\<rparr>]))"
proof (induction slices arbitrary: info past)
  case Nil
  then show ?case by simp
next
  case (Cons slice slices)
  obtain k atoms where slice: "slice = (k, atoms)" by (cases slice)
  from Cons.prems slice have fresh: "map_of slices k = None" and d: "distinct (map fst slices)"
    by (auto simp: map_of_eq_None_iff)
  show ?case
    using fresh by (simp add: slice Let_def Cons.IH [OF d] at_update split: option.splits)
qed

lemma closeBucket_large:
  assumes "isBucketLargeEnough p t"
  shows "mSkippedBuckets (closeBucket p t) = mSkippedBuckets p"
    and "DAList.lookup (mPastBuckets (closeBucket p t)) dim =
           (case DAList.lookup (mCurrentSlicedBucket p) dim of
              None \<Rightarrow> DAList.lookup (mPastBuckets p) dim
            | Some atoms \<Rightarrow>
                Some (at (mPastBuckets p) dim @
                      [\<lparr>mBucketStartNs = mCurrentBucketStartTimeNs p,
                        mBucketEndNs = bucketEndTime p t,
                        mAggregatedAtoms = aggregateAtoms (mAtomId p) atoms DAList.empty\<rparr>]))"
  using assms
  by (simp_all add: closeBucket_def flushSlices_lookup
        DAList.lookup.rep_eq [of "mCurrentSlicedBucket p"] split: option.splits)

lemma closeBucket_small:
  assumes "\<not> isBucketLargeEnough p t"
  shows "mPastBuckets (closeBucket p t) = mPastBuckets p"
    and "mSkippedBuckets (closeBucket p t) =
           (if mIsActive p then
              mSkippedBuckets p @
              [\<lparr>bucketStartTimeNs = mCurrentBucketStartTimeNs p,
                bucketEndTimeNs = bucketEndTime p t,
                dropEvents = dropEvents (mCurrentSkippedBucket p) @
                  (if length (dropEvents (mCurrentSkippedBucket p)) < 10
                   then [\<lparr>reason = BUCKET_TOO_SMALL, dropTimeNs = t\<rparr>] else [])\<rparr>]
            else mSkippedBuckets p)"
  using assms
  by (auto simp: closeBucket_def Let_def maxDropEventsReached_def kMaxLoggedBucketDropEvents_def
        buildDropEvent_def)

lemma flushCurrentBucketLocked_buckets:
  assumes "flushCurrentBucketLocked p t n = Inr p'"
  shows "mPastBuckets p' = mPastBuckets (closeBucket p t)"
    and "mSkippedBuckets p' = mSkippedBuckets (closeBucket p t)"
  using assms
  by (auto simp: flushCurrentBucketLocked_def dest: updateAnomalyTrackers_frame
           split: sum.splits)

text \<open>
  \<^bold>\<open>Claim C2.\<close> \<^verbatim>\<open>flushCurrentBucketLocked(eventTimeNs, nextStartNs)\<close> closes the bucket
  at \<open>min(eventTimeNs, fullBucketEndNs)\<close>. If \<open>end - start \<ge> minBucketSizeNs\<close>, every
  dimension of the current sliced bucket gets one more past bucket, with these bounds and
  with the timestamps of its atoms grouped by \<open>AtomDimensionKey\<close> in insertion order; the
  past buckets of the other dimensions and the skipped buckets stay as they are. Otherwise
  the past buckets stay as they are, and exactly when the producer is active one skipped
  bucket is appended, which carries a bucket-too-small drop event at \<open>eventTimeNs\<close> unless
  its drop-event vector already holds 10 events. In every case the past buckets or the
  skipped buckets are unchanged: no closed bucket ends up in both. The statement is made
  for producers on which the flush is defined.
\<close>

theorem flushCurrentBucketLocked_spec:
  assumes "anomalyProjectionDefined p"
    and "fullBucketEndNs = mTimeBaseNs p + (mCurrentBucketNum p + 1) * mBucketSizeNs p"
    and "endNs = (if eventTimeNs <s fullBucketEndNs then eventTimeNs else fullBucketEndNs)"
    and "startNs = mCurrentBucketStartTimeNs p"
  shows "\<exists>p'. flushCurrentBucketLocked p eventTimeNs nextStartNs = Inr p' \<and>
     (if mMinBucketSizeNs p \<le>s endNs - startNs then
        mSkippedBuckets p' = mSkippedBuckets p \<and>
        (\<forall>dim.
           case DAList.lookup (mCurrentSlicedBucket p) dim of
             None \<Rightarrow> DAList.lookup (mPastBuckets p') dim = DAList.lookup (mPastBuckets p) dim
           | Some atoms \<Rightarrow>
               (\<exists>b. DAList.lookup (mPastBuckets p') dim = Some (at (mPastBuckets p) dim @ [b]) \<and>
                    mBucketStartNs b = startNs \<and> mBucketEndNs b = endNs \<and>
                    (\<forall>key. DAList.lookup (mAggregatedAtoms b) key =
                            (if groupedTimestamps (mAtomId p) atoms key = [] then None
                             else Some (groupedTimestamps (mAtomId p) atoms key)))))
      else
        mPastBuckets p' = mPastBuckets p \<and>
        mSkippedBuckets p' =
          (if mIsActive p then
             mSkippedBuckets p @
             [\<lparr>bucketStartTimeNs = startNs, bucketEndTimeNs = endNs,
               dropEvents = dropEvents (mCurrentSkippedBucket p) @
                 (if length (dropEvents (mCurrentSkippedBucket p)) < 10
                  then [\<lparr>reason = BUCKET_TOO_SMALL, dropTimeNs = eventTimeNs\<rparr>] else [])\<rparr>]
           else mSkippedBuckets p)) \<and>
     (mPastBuckets p' = mPastBuckets p \<or> mSkippedBuckets p' = mSkippedBuckets p)"
proof -
  obtain p' where p': "flushCurrentBucketLocked p eventTimeNs nextStartNs = Inr p'"
    using flushCurrentBucketLocked_total [OF assms(1)] by blast
  note b = flushCurrentBucketLocked_buckets [OF p']
  have e: "bucketEndTime p eventTimeNs = endNs"
    using assms(2,3) by (simp add: bucketEndTime_def getCurrentBucketEndTimeNs_def)
  have l: "isBucketLargeEnough p eventTimeNs \<longleftrightarrow> mMinBucketSizeNs p \<le>s endNs - startNs"
    using e assms(4) by (simp add: isBucketLargeEnough_def)
  show ?thesis
  proof (cases "isBucketLargeEnough p eventTimeNs")
    case True
    note c = closeBucket_large [OF True]
    have "mSkippedBuckets p' = mSkippedBuckets p"
      using b(2) c(1) by simp
    moreover have "\<forall>dim.
           case DAList.lookup (mCurrentSlicedBucket p) dim of
             None \<Rightarrow> DAList.lookup (mPastBuckets p') dim = DAList.lookup (mPastBuckets p) dim
           | Some atoms \<Rightarrow>
               (\<exists>b. DAList.lookup (mPastBuckets p') dim = Some (at (mPastBuckets p) dim @ [b]) \<and>
                    mBucketStartNs b = startNs \<and> mBucketEndNs b = endNs \<and>
                    (\<forall>key. DAList.lookup (mAggregatedAtoms b) key =
                            (if groupedTimestamps (mAtomId p) atoms key = [] then None
                             else Some (groupedTimestamps (mAtomId p) atoms key))))"
      using e assms(4) by (simp add: b(1) c(2) aggregateAtoms_lookup split: option.splits)
    ultimately show ?thesis
      using p' True l by auto
  next
    case False
    note c = closeBucket_small [OF False]
    show ?thesis
      using p' False l b c e assms(4) by auto
  qed
qed

text \<open>Scenario S1 of the spec, flushed by the event at 11: the bucket \<open>[0, 10)\<close> of the
  dimension holds one aggregated atom with the timestamps 1, 3, 9, and nothing is
  skipped.\<close>

theorem flushCurrentBucketLocked_spec_witness:
  "anomalyProjectionDefined filledProducer \<and>
   map_sum id
     (\<lambda>p'. map (\<lambda>b. (mBucketStartNs b, mBucketEndNs b,
                      DAList.lookup (mAggregatedAtoms b)
                        (AtomDimensionKey 7 [\<lparr>mField = Field 7 2, mValue = INT_value 3\<rparr>])))
              (at (mPastBuckets p') keyA))
     (flushCurrentBucketLocked filledProducer 11 10) = Inr [(0, 10, Some [1, 3, 9])] \<and>
   map_sum id mSkippedBuckets (flushCurrentBucketLocked filledProducer 11 10) = Inr []"
proof -
  have ready: "anomalyProjectionDefined filledProducer"
    by (simp add: anomalyProjectionDefined_def filledProducer_def producer0_def)
  have g: "groupedTimestamps 7 [gaugeAtomAt 1, gaugeAtomAt 3, gaugeAtomAt 9]
             (AtomDimensionKey 7 [\<lparr>mField = Field 7 2, mValue = INT_value 3\<rparr>]) = [1, 3, 9]"
    by (simp add: groupedTimestamps_def gaugeAtomAt_def)
  let ?key = "AtomDimensionKey 7 [\<lparr>mField = Field 7 2, mValue = INT_value 3\<rparr>]"
  from flushCurrentBucketLocked_spec [OF ready, of 10 10 11 0 10]
  obtain p' where p': "flushCurrentBucketLocked filledProducer 11 10 = Inr p'"
    and skipped: "mSkippedBuckets p' = mSkippedBuckets filledProducer"
    and past: "\<forall>dim.
           case DAList.lookup (mCurrentSlicedBucket filledProducer) dim of
             None \<Rightarrow> DAList.lookup (mPastBuckets p') dim =
                      DAList.lookup (mPastBuckets filledProducer) dim
           | Some atoms \<Rightarrow>
               (\<exists>b. DAList.lookup (mPastBuckets p') dim =
                      Some (at (mPastBuckets filledProducer) dim @ [b]) \<and>
                    mBucketStartNs b = 0 \<and> mBucketEndNs b = 10 \<and>
                    (\<forall>key. DAList.lookup (mAggregatedAtoms b) key =
                            (if groupedTimestamps (mAtomId filledProducer) atoms key = [] then None
                             else Some (groupedTimestamps (mAtomId filledProducer) atoms key))))"
    by (auto simp: filledProducer_def producer0_def word_sle_eq word_sless_alt)
  from past [rule_format, of keyA]
  obtain b where b: "DAList.lookup (mPastBuckets p') keyA = Some [b]"
    "mBucketStartNs b = 0" "mBucketEndNs b = 10"
    "DAList.lookup (mAggregatedAtoms b) ?key = Some [1, 3, 9]"
    using g by (auto simp: filledProducer_def producer0_def at_def)
  show ?thesis
    using ready p' skipped b by (simp add: at_def filledProducer_def producer0_def)
qed

section \<open>Properties of the gauge producer\<close>

text \<open>
  \<^bold>\<open>Claim C6.\<close> An event whose elapsed timestamp is strictly less than the start of the
  current bucket leaves the producer exactly as it was, on the append path
  (\<^verbatim>\<open>onMatchedLogEventInternalLocked\<close>) and through \<^verbatim>\<open>onMatchedLogEventLocked\<close>: the
  current sliced bucket, the past and skipped buckets, the bucket counters and the
  recorded calls are all unchanged.
\<close>

theorem late_event_dropped:
  assumes "GetElapsedTimestampNs event <s mCurrentBucketStartTimeNs p"
  shows "onMatchedLogEventInternalLocked h p eventKey cond event keep reply = Inr p \<and>
         onMatchedLogEventLocked h p event env = Inr p"
  using assms by (cases env) (simp add: onMatchedLogEventInternalLocked.simps)

text \<open>Scenario S5 of the spec: the current bucket starts at 100, the event is at 50.\<close>

theorem late_event_dropped_witness:
  "(50 :: int64) <s 100 \<and>
   onMatchedLogEventLocked helpers0 (producer0\<lparr>mCurrentBucketStartTimeNs := 100\<rparr>)
     (atomEvent 50 3) (EventEnv keyA True True noPull) =
   Inr (producer0\<lparr>mCurrentBucketStartTimeNs := 100\<rparr>)"
  using late_event_dropped
    [of "atomEvent 50 3" "producer0\<lparr>mCurrentBucketStartTimeNs := 100\<rparr>"
        helpers0 keyA True True noPull "EventEnv keyA True True noPull"]
  by (simp add: atomEvent_def producer0_def)

text \<open>
  \<^bold>\<open>Claim C5.\<close> When the latency of a pull exceeds \<open>maxPullDelayNs\<close>, the producer after
  the call differs from the one before only by the two notes made on the statistics sink
  (the delay and the exceed event): no atom reaches the current bucket. This holds for the
  synchronous path (\<^verbatim>\<open>pullAndMatchEventsLocked\<close>, once the puller was triggered and the
  pull succeeded) and for the asynchronous one (\<^verbatim>\<open>onDataPulled\<close>). \<^verbatim>\<open>onDataPulled\<close>
  moreover returns the producer unchanged when the pull result is not success or the
  batch is empty.
\<close>

theorem pull_exceeds_max_delay:
  "(triggerPuller p \<and> mMaxPullDelayNs p <s now - t \<longrightarrow>
      pullAndMatchEventsLocked h p t (PullerReply True pulled now) =
        Inr (p\<lparr>statsdStats := statsdStats p @
                 [notePullDelay (mPullTagId p) (now - t),
                  notePullExceedMaxDelay (mPullTagId p)]\<rparr>)) \<and>
   (pulled \<noteq> [] \<and> mMaxPullDelayNs p <s now - t \<longrightarrow>
      onDataPulled h p pulled PULL_RESULT_SUCCESS t now =
        Inr (p\<lparr>statsdStats := statsdStats p @
                 [notePullDelay (mPullTagId p) (now - t),
                  notePullExceedMaxDelay (mPullTagId p)]\<rparr>)) \<and>
   (pullResult \<noteq> PULL_RESULT_SUCCESS \<or> pulled = [] \<longrightarrow>
      onDataPulled h p pulled pullResult t now = Inr p)"
  by (simp add: onDataPulled_def Let_def)

text \<open>Scenario S6 of the spec: the maximal delay is 50, the pull issued at 0 returns
  at 70.\<close>

theorem pull_exceeds_max_delay_witness:
  "triggerPuller pulledProducer \<and> mMaxPullDelayNs pulledProducer <s 70 - 0 \<and>
   pullAndMatchEventsLocked helpers0 pulledProducer 0
     (PullerReply True [PulledEvent (atomEvent 70 3) kMatched None
                          (EventEnv keyA True True noPull)] 70) =
     Inr (pulledProducer\<lparr>statsdStats := [notePullDelay 7 70, notePullExceedMaxDelay 7]\<rparr>) \<and>
   onDataPulled helpers0 pulledProducer
     [PulledEvent (atomEvent 70 3) kMatched None (EventEnv keyA True True noPull)]
     PULL_RESULT_SUCCESS 0 70 =
     Inr (pulledProducer\<lparr>statsdStats := [notePullDelay 7 70, notePullExceedMaxDelay 7]\<rparr>) \<and>
   onDataPulled helpers0 pulledProducer
     [PulledEvent (atomEvent 70 3) kMatched None (EventEnv keyA True True noPull)]
     PULL_RESULT_FAIL 0 10 = Inr pulledProducer"
proof -
  have gate: "triggerPuller pulledProducer"
    by (simp add: triggerPuller_def pulledProducer_def producer0_def msize_def
          DAList.empty.rep_eq)
  have late: "mMaxPullDelayNs pulledProducer <s 70 - 0"
    by (simp add: pulledProducer_def producer0_def)
  show ?thesis
    using gate late
      pull_exceeds_max_delay
        [of pulledProducer 70 0 helpers0
            "[PulledEvent (atomEvent 70 3) kMatched None (EventEnv keyA True True noPull)]"
            PULL_RESULT_FAIL]
      pull_exceeds_max_delay
        [of pulledProducer 10 0 helpers0
            "[PulledEvent (atomEvent 70 3) kMatched None (EventEnv keyA True True noPull)]"
            PULL_RESULT_FAIL]
    by (simp add: pulledProducer_def producer0_def)
qed

text \<open>
  \<^bold>\<open>Claim C10.\<close> \<^verbatim>\<open>dropDataLocked\<close> flushes at the drop time and then clears the
  past buckets only: its skipped buckets are those of the flushed producer (with the
  bucket that the flush may just have skipped), the dimension-guardrail-hit flag is the
  one before the call, and the current bucket is the flushed one.
  \<^verbatim>\<open>clearPastBucketsLocked\<close> clears the past buckets and the skipped buckets.
\<close>

theorem dropDataLocked_frame:
  assumes "0 <s mBucketSizeNs p" and "anomalyProjectionDefined p"
  shows "\<exists>q d c. flushIfNeededLocked p t = Inr q \<and>
           dropDataLocked p t = Inr d \<and> clearPastBucketsLocked p t = Inr c \<and>
           mPastBuckets d = DAList.empty \<and>
           mSkippedBuckets d = mSkippedBuckets q \<and>
           mDimensionGuardrailHit d = mDimensionGuardrailHit p \<and>
           mCurrentSlicedBucket d = mCurrentSlicedBucket q \<and>
           mPastBuckets c = DAList.empty \<and> mSkippedBuckets c = []"
proof -
  obtain q where q: "flushIfNeededLocked p t = Inr q"
    using flushIfNeededLocked_total [OF assms] by blast
  then show ?thesis
    using flushIfNeededLocked_frame(1) [OF q]
    by (simp add: dropDataLocked_def clearPastBucketsLocked_def)
qed

text \<open>A producer whose bucket is too small: the flush at 25 skips the bucket \<open>[0, 10)\<close>;
  \<^verbatim>\<open>dropDataLocked\<close> keeps that skipped bucket and the raised flag,
  \<^verbatim>\<open>clearPastBucketsLocked\<close> removes the skipped bucket.\<close>

lemma flush_smallBucketProducer:
  "flushIfNeededLocked smallBucketProducer 25 =
     Inr (smallBucketProducer
            \<lparr>mSkippedBuckets :=
               [\<lparr>bucketStartTimeNs = 0, bucketEndTimeNs = 10,
                 dropEvents = [\<lparr>reason = BUCKET_TOO_SMALL, dropTimeNs = 25\<rparr>]\<rparr>],
             statsdStats := [noteBucketCount 1], mCurrentBucketStartTimeNs := 20,
             mCurrentBucketNum := 2\<rparr>)"
  by (simp add: smallBucketProducer_def producer0_def flushIfNeededLocked_def div64_def
        sdiv64_def signed_divide_int_def flushCurrentBucketLocked_def
        updateAnomalyTrackers_def closeBucket_def isBucketLargeEnough_def bucketEndTime_def
        getCurrentBucketEndTimeNs_def reset_def maxDropEventsReached_def
        kMaxLoggedBucketDropEvents_def buildDropEvent_def word_sle_eq word_sless_alt Let_def)

theorem dropDataLocked_frame_witness:
  "0 <s mBucketSizeNs smallBucketProducer \<and> anomalyProjectionDefined smallBucketProducer \<and>
   map_sum id mSkippedBuckets (dropDataLocked smallBucketProducer 25) =
     Inr [\<lparr>bucketStartTimeNs = 0, bucketEndTimeNs = 10,
           dropEvents = [\<lparr>reason = BUCKET_TOO_SMALL, dropTimeNs = 25\<rparr>]\<rparr>] \<and>
   map_sum id mDimensionGuardrailHit (dropDataLocked smallBucketProducer 25) = Inr True \<and>
   map_sum id mSkippedBuckets (clearPastBucketsLocked smallBucketProducer 25) = Inr []"
proof -
  have size: "0 <s mBucketSizeNs smallBucketProducer"
    by (simp add: smallBucketProducer_def producer0_def word_sless_alt)
  have ready: "anomalyProjectionDefined smallBucketProducer"
    by (simp add: anomalyProjectionDefined_def smallBucketProducer_def producer0_def)
  from dropDataLocked_frame [OF size ready, of 25] flush_smallBucketProducer
  show ?thesis using size ready
    by (auto simp: smallBucketProducer_def producer0_def)
qed

section \<open>Properties of the report\<close>

lemma collect_total:
  "(\<And>x. x \<in> set xs \<Longrightarrow> \<exists>ys. f x = Inr ys) \<Longrightarrow> \<exists>zs. collect f xs = Inr zs"
proof (induction xs)
  case Nil
  then show ?case by simp
next
  case (Cons x xs)
  obtain ys where "f x = Inr ys" using Cons.prems [of x] by auto
  moreover obtain zs where "collect f xs = Inr zs" using Cons by auto
  ultimately show ?case by simp
qed

lemma writeBucketInfo_total:
  assumes "0 <s mBucketSizeNs p"
  shows "\<exists>calls. writeBucketInfo p bucket = Inr calls"
  using assms
  by (simp add: writeBucketInfo_def writeBucketTimes_def getBucketNumFromEndTimeNs_def
        div64_pos)

lemma writeData_total:
  assumes "0 <s mBucketSizeNs p"
  shows "\<exists>calls. writeData p pair = Inr calls"
proof -
  obtain infos where "collect (writeBucketInfo p) (snd pair) = Inr infos"
    using collect_total [of "snd pair" "writeBucketInfo p"] writeBucketInfo_total [OF assms]
    by blast
  then show ?thesis by (simp add: writeData_def)
qed

lemma msize_0_iff: "msize m = 0 \<longleftrightarrow> m = DAList.empty"
  by (simp add: msize_def alist_eq_iff DAList.empty.rep_eq)

lemma dump_flush_total:
  assumes "0 <s mBucketSizeNs p" and "anomalyProjectionDefined p"
  shows "\<exists>p1. (if includePartial then flushLocked p t else flushIfNeededLocked p t) = Inr p1"
  using flushLocked_total [OF assms] flushIfNeededLocked_total [OF assms] by simp

lemma dump_flush_frame:
  assumes "(if includePartial then flushLocked p t else flushIfNeededLocked p t) = Inr p1"
  shows "mDimensionGuardrailHit p1 = mDimensionGuardrailHit p"
    and "mBucketSizeNs p1 = mBucketSizeNs p"
    and "mTimeBaseNs p1 = mTimeBaseNs p"
  using assms flushLocked_frame [of p t p1] flushIfNeededLocked_frame [of p t p1]
  by (auto split: if_splits)

text \<open>The definitions unfolded to evaluate the producer on concrete events.\<close>

lemmas eval_defs =
  producer0_def helpers0_def noPull_def keyA_def keyB_def keyC_def atomEvent_def
  onMatchedLogEventInternalLocked.simps flushIfNeededLocked_def getCurrentBucketEndTimeNs_def
  appendGaugeAtom_def hitGuardRailLocked_def contains_def msize_def subscript_def at_def
  getGaugeFields_def gaugeVal_def Let_def
  DAList.update.rep_eq DAList.empty.rep_eq DAList.lookup.rep_eq
  word_sle_eq word_sless_alt

text \<open>Scenario S3 of the spec: with a hard limit of 2, events for three dimensions leave
  two of them in the bucket and raise the flag.\<close>

lemma three_dimensions:
  "run helpers0 producer0 [keyEvent 1 keyA, keyEvent 2 keyB, keyEvent 3 keyC] =
     Inr (producer0
            \<lparr>mCurrentSlicedBucket :=
               DAList.update keyB [\<lparr>mFields = [\<lparr>mField = Field 7 2, mValue = INT_value 3\<rparr>],
                                    mElapsedTimestampNs = 2\<rparr>]
                 (DAList.update keyA [\<lparr>mFields = [\<lparr>mField = Field 7 2, mValue = INT_value 3\<rparr>],
                                       mElapsedTimestampNs = 1\<rparr>] DAList.empty),
             mHasHitGuardrail := True, mDimensionGuardrailHit := True,
             statsdStats := [noteMetricDimensionSize 1 2, noteMetricDimensionSize 1 3,
                             noteHardDimensionLimitReached 1]\<rparr>)"
  by (simp add: keyEvent_def eval_defs alist_eq_iff)

text \<open>
  \<^bold>\<open>Claim C9\<close>, as stated, fails: \<^verbatim>\<open>onDumpReportLocked\<close> returns before the erase when the
  flushed producer has neither past nor skipped buckets, and the flag then stays raised.
  After scenario S3, a report at 5 without the partial bucket and with \<open>erase_data\<close> leaves
  the flag set.
\<close>

theorem onDumpReportLocked_erase_counterexample:
  "map_sum id mDimensionGuardrailHit
     (run helpers0 producer0
        [keyEvent 1 keyA, keyEvent 2 keyB, keyEvent 3 keyC, OnDumpReport 5 False True]) =
   Inr True"
proof -
  have append: "run h p (ops @ [operation]) =
      (case run h p ops of Inl e \<Rightarrow> Inl e | Inr q \<Rightarrow> step h q operation)"
    for h p ops operation
    by (induction ops arbitrary: p) (auto split: sum.splits)
  have "run helpers0 producer0
          ([keyEvent 1 keyA, keyEvent 2 keyB, keyEvent 3 keyC] @ [OnDumpReport 5 False True]) =
        step helpers0
          (producer0
            \<lparr>mCurrentSlicedBucket :=
               DAList.update keyB [\<lparr>mFields = [\<lparr>mField = Field 7 2, mValue = INT_value 3\<rparr>],
                                    mElapsedTimestampNs = 2\<rparr>]
                 (DAList.update keyA [\<lparr>mFields = [\<lparr>mField = Field 7 2, mValue = INT_value 3\<rparr>],
                                       mElapsedTimestampNs = 1\<rparr>] DAList.empty),
             mHasHitGuardrail := True, mDimensionGuardrailHit := True,
             statsdStats := [noteMetricDimensionSize 1 2, noteMetricDimensionSize 1 3,
                             noteHardDimensionLimitReached 1]\<rparr>)
          (OnDumpReport 5 False True)"
    by (simp only: append three_dimensions sum.case)
  then show ?thesis
    by (simp add: onDumpReportLocked_def eval_defs)
qed

text \<open>
  \<^bold>\<open>Claim C9, amended.\<close> After \<^verbatim>\<open>onDumpReportLocked\<close> with \<open>erase_data = true\<close> the
  past-bucket map and the skipped-bucket list are empty. The dimension-guardrail-hit flag
  is false if the producer, once flushed for the report, had a past or a skipped bucket
  to report; otherwise the flag keeps the value it had before the call.
\<close>

theorem onDumpReportLocked_erase:
  assumes "0 <s mBucketSizeNs p" and "anomalyProjectionDefined p"
  shows "\<exists>p1 p' out.
           (if includePartial then flushLocked p t else flushIfNeededLocked p t) = Inr p1 \<and>
           onDumpReportLocked p t includePartial True = Inr (p', out) \<and>
           mPastBuckets p' = DAList.empty \<and> mSkippedBuckets p' = [] \<and>
           (mDimensionGuardrailHit p' \<longleftrightarrow>
              mDimensionGuardrailHit p \<and> mPastBuckets p1 = DAList.empty \<and>
              mSkippedBuckets p1 = [])"
proof -
  obtain p1 where p1:
    "(if includePartial then flushLocked p t else flushIfNeededLocked p t) = Inr p1"
    using dump_flush_total [OF assms] by blast
  note f = dump_flush_frame [OF p1]
  show ?thesis
  proof (cases "msize (mPastBuckets p1) = 0 \<and> mSkippedBuckets p1 = []")
    case True
    then show ?thesis
      using p1 f(1) by (auto simp: onDumpReportLocked_def Let_def msize_0_iff)
  next
    case False
    have "0 <s mBucketSizeNs p1" using assms(1) f(2) by simp
    then obtain dataCalls where
      "collect (writeData p1) (DAList.impl_of (mPastBuckets p1)) = Inr dataCalls"
      using collect_total [of "DAList.impl_of (mPastBuckets p1)" "writeData p1"]
        writeData_total [of p1] by blast
    then show ?thesis
      using p1 False by (auto simp: onDumpReportLocked_def Let_def msize_0_iff)
  qed
qed

text \<open>The producer whose bucket is too small has the flag raised; the report at 25 skips
  the bucket, reports it, and lowers the flag.\<close>

theorem onDumpReportLocked_erase_witness:
  "0 <s mBucketSizeNs smallBucketProducer \<and> anomalyProjectionDefined smallBucketProducer \<and>
   mDimensionGuardrailHit smallBucketProducer \<and>
   map_sum id (\<lambda>r. (mPastBuckets (fst r) = DAList.empty, mSkippedBuckets (fst r),
                    mDimensionGuardrailHit (fst r)))
     (onDumpReportLocked smallBucketProducer 25 False True) = Inr (True, [], False)"
proof -
  have size: "0 <s mBucketSizeNs smallBucketProducer"
    by (simp add: smallBucketProducer_def producer0_def word_sless_alt)
  have ready: "anomalyProjectionDefined smallBucketProducer"
    by (simp add: anomalyProjectionDefined_def smallBucketProducer_def producer0_def)
  from onDumpReportLocked_erase [OF size ready, of False 25] flush_smallBucketProducer
  show ?thesis using size ready
    by (auto simp: smallBucketProducer_def producer0_def)
qed

section \<open>Properties of the anomaly hook\<close>

lemma getGaugeFields_cong:
  "mDimensionsInWhat p' = mDimensionsInWhat p \<Longrightarrow> mFieldMatchers p' = mFieldMatchers p \<Longrightarrow>
   getGaugeFields h p' event = getGaugeFields h p event"
  by (simp add: getGaugeFields_def)

lemma hitGuardRailLocked_frame:
  "mCurrentSlicedBucket (snd (hitGuardRailLocked p k)) = mCurrentSlicedBucket p"
  "mDimensionsInWhat (snd (hitGuardRailLocked p k)) = mDimensionsInWhat p"
  "mFieldMatchers (snd (hitGuardRailLocked p k)) = mFieldMatchers p"
  "mAnomalyTrackers (snd (hitGuardRailLocked p k)) = mAnomalyTrackers p"
  "anomalyCalls (snd (hitGuardRailLocked p k)) = anomalyCalls p"
  "mCurrentBucketNum (snd (hitGuardRailLocked p k)) = mCurrentBucketNum p"
  "mMetricId (snd (hitGuardRailLocked p k)) = mMetricId p"
  "mGaugeAtomsPerDimensionLimit (snd (hitGuardRailLocked p k)) = mGaugeAtomsPerDimensionLimit p"
  "mDimensionSoftLimit (snd (hitGuardRailLocked p k)) = mDimensionSoftLimit p"
  "mDimensionHardLimit (snd (hitGuardRailLocked p k)) = mDimensionHardLimit p"
  "mSamplingType (snd (hitGuardRailLocked p k)) = mSamplingType p"
  by (simp_all add: hitGuardRailLocked_def Let_def)

lemma at_subscript: "at (subscript m k) k' = at m k'"
  by (cases "k' = k") (auto simp: subscript_def contains_def at_def)

lemma getGaugeFields_bucket_update [simp]:
  "getGaugeFields h (p\<lparr>mCurrentSlicedBucket := b\<rparr>) event = getGaugeFields h p event"
  by (simp add: getGaugeFields_def)

text \<open>
  \<^bold>\<open>Claim C8\<close>, as stated, fails: the source tests the number of fields of the appended
  atom, not their type. An atom whose only field is a string is appended, and the attached
  tracker is informed with the value 0.
\<close>

theorem anomaly_trackers_string_counterexample:
  "map_sum id anomalyCalls
     (onMatchedLogEventLocked helpers0 trackerProducer stringEvent
        (EventEnv keyA True True noPull)) =
   Inr [detectAndDeclareAnomaly 0 5 0 1 keyA 0] \<and>
   map_sum id (\<lambda>p'. map mFields (at (mCurrentSlicedBucket p') keyA))
     (onMatchedLogEventLocked helpers0 trackerProducer stringEvent
        (EventEnv keyA True True noPull)) =
   Inr [[\<lparr>mField = Field 7 2, mValue = STRING_value ''a''\<rparr>]]"
  by (simp add: trackerProducer_def stringEvent_def eval_defs)

text \<open>
  \<^bold>\<open>Claim C8, amended.\<close> When the append path appends a gauge atom, each attached
  anomaly tracker is informed with \<open>(eventTime, bucketNum, metricId, dim, value)\<close> if and
  only if the atom has exactly one field. The value is that field's integer value when the
  field is an \<^verbatim>\<open>INT\<close> or a \<^verbatim>\<open>LONG\<close>, and 0 for a field of any other type.
\<close>

theorem anomaly_trackers_informed:
  assumes "\<not> (contains (mCurrentSlicedBucket p) eventKey \<and> mSamplingType p = RANDOM_ONE_SAMPLE)"
    and "\<not> fst (hitGuardRailLocked p eventKey)"
    and "length (at (mCurrentSlicedBucket p) eventKey) < mGaugeAtomsPerDimensionLimit p"
    and "gaugeFields = getGaugeFields h p event"
  shows "at (mCurrentSlicedBucket (appendGaugeAtom h p eventKey event)) eventKey =
           at (mCurrentSlicedBucket p) eventKey @
           [\<lparr>mFields = gaugeFields,
             mElapsedTimestampNs = truncateTimestampIfNecessary h event\<rparr>] \<and>
         anomalyCalls (appendGaugeAtom h p eventKey event) =
           anomalyCalls p @
           (case gaugeFields of
              [fv] \<Rightarrow>
                map (\<lambda>tracker.
                       detectAndDeclareAnomaly tracker (GetElapsedTimestampNs event)
                         (mCurrentBucketNum p) (mMetricId p) eventKey
                         (case mValue fv of
                            INT_value i \<Rightarrow> scast i
                          | LONG_value l \<Rightarrow> l
                          | _ \<Rightarrow> 0))
                    (mAnomalyTrackers p)
            | _ \<Rightarrow> [])"
proof -
  obtain hit p1 where h: "hitGuardRailLocked p eventKey = (hit, p1)"
    by (cases "hitGuardRailLocked p eventKey")
  with assms(2) have hit: "\<not> hit" by simp
  note f = hitGuardRailLocked_frame [of p eventKey, unfolded h, simplified]
  have g: "getGaugeFields h p1 event = gaugeFields"
    using assms(4) f by (simp add: getGaugeFields_def)
  show ?thesis
    using assms(1,3) hit f
    by (auto simp: appendGaugeAtom_def h Let_def at_subscript at_update g gaugeVal_def
          split: list.splits)
qed

text \<open>One tracker, one integer field with the value 3.\<close>

theorem anomaly_trackers_informed_witness:
  "\<not> contains (mCurrentSlicedBucket trackerProducer) keyA \<and>
   \<not> fst (hitGuardRailLocked trackerProducer keyA) \<and>
   anomalyCalls (appendGaugeAtom helpers0 trackerProducer keyA (atomEvent 5 3)) =
     [detectAndDeclareAnomaly 0 5 0 1 keyA 3]"
proof -
  have a: "\<not> contains (mCurrentSlicedBucket trackerProducer) keyA"
    by (simp add: trackerProducer_def producer0_def contains_def)
  have b: "\<not> fst (hitGuardRailLocked trackerProducer keyA)"
    by (simp add: trackerProducer_def producer0_def hitGuardRailLocked_def contains_def
          msize_def DAList.empty.rep_eq)
  have c: "length (at (mCurrentSlicedBucket trackerProducer) keyA)
             < mGaugeAtomsPerDimensionLimit trackerProducer"
    by (simp add: trackerProducer_def producer0_def at_def)
  have d: "[\<lparr>mField = Field 7 2, mValue = INT_value 3\<rparr>] =
             getGaugeFields helpers0 trackerProducer (atomEvent 5 3)"
    by (simp add: trackerProducer_def producer0_def getGaugeFields_def helpers0_def
          atomEvent_def)
  from anomaly_trackers_informed [OF _ b c d] a b
  show ?thesis
    by (simp add: trackerProducer_def producer0_def atomEvent_def)
qed

section \<open>Properties of the report: bucket times\<close>

lemma collect_sublist:
  "collect f xs = Inr zs \<Longrightarrow> x \<in> set xs \<Longrightarrow> \<exists>ys. f x = Inr ys \<and> sublist ys zs"
proof (induction xs arbitrary: zs)
  case Nil
  then show ?case by simp
next
  case (Cons a xs)
  from Cons.prems(1) obtain ys zs' where a: "f a = Inr ys" and rest: "collect f xs = Inr zs'"
    and zs: "zs = ys @ zs'"
    by (auto split: sum.splits)
  show ?case
  proof (cases "x = a")
    case True
    with a zs show ?thesis by auto
  next
    case False
    with Cons.prems(2) have "x \<in> set xs" by simp
    from Cons.IH [OF rest this] obtain ys' where "f x = Inr ys'" and "sublist ys' zs'" by blast
    then show ?thesis
      using zs sublist_order.order.trans [of ys' zs' "ys @ zs'"] by auto
  qed
qed

lemma fieldWritten_append:
  "fieldWritten fid (xs @ ys) \<longleftrightarrow> fieldWritten fid xs \<or> fieldWritten fid ys"
  by (simp add: fieldWritten_def list_ex_iff) blast

lemma fieldWritten_Cons:
  "fieldWritten fid (call # calls) \<longleftrightarrow>
     (case call of Write ty cnt fid' v \<Rightarrow> fid' = fid | _ \<Rightarrow> False) \<or> fieldWritten fid calls"
  by (simp add: fieldWritten_def)

lemma fieldWritten_Nil: "\<not> fieldWritten fid []"
  by (simp add: fieldWritten_def)

lemma fieldWritten_concat:
  "fieldWritten fid (concat xss) \<longleftrightarrow> (\<exists>xs \<in> set xss. fieldWritten fid xs)"
  by (induction xss) (auto simp: fieldWritten_append fieldWritten_Nil)

lemma writeAggregatedAtom_fields:
  "fieldWritten fid (writeAggregatedAtom p entry) \<Longrightarrow> fid = FIELD_ID_ATOM_TIMESTAMPS"
  by (auto simp: writeAggregatedAtom_def fieldWritten_Cons fieldWritten_append fieldWritten_Nil
        fieldWritten_def list_ex_iff)

lemma atoms_fields:
  "fieldWritten fid (concat (map (writeAggregatedAtom p) entries)) \<Longrightarrow> fid = 2"
  using writeAggregatedAtom_fields
  by (auto simp: fieldWritten_concat FIELD_ID_ATOM_TIMESTAMPS_def)

lemma writeBucketInfo_shape:
  assumes "writeBucketInfo p bucket = Inr info"
  shows "if mBucketEndNs bucket - mBucketStartNs bucket = mBucketSizeNs p then
           info =
             Start FIELD_TYPE_MESSAGE FIELD_COUNT_REPEATED FIELD_ID_BUCKET_INFO #
             Write FIELD_TYPE_INT64 NO_FIELD_COUNT FIELD_ID_BUCKET_NUM
               (Int64 (sdiv64 (mBucketEndNs bucket - mTimeBaseNs p) (mBucketSizeNs p) - 1)) #
             concat (map (writeAggregatedAtom p) (DAList.impl_of (mAggregatedAtoms bucket))) @
             [End] \<and>
           \<not> fieldWritten FIELD_ID_START_BUCKET_ELAPSED_MILLIS info \<and>
           \<not> fieldWritten FIELD_ID_END_BUCKET_ELAPSED_MILLIS info
         else
           info =
             Start FIELD_TYPE_MESSAGE FIELD_COUNT_REPEATED FIELD_ID_BUCKET_INFO #
             Write FIELD_TYPE_INT64 NO_FIELD_COUNT FIELD_ID_START_BUCKET_ELAPSED_MILLIS
               (Int64 (NanoToMillis (mBucketStartNs bucket))) #
             Write FIELD_TYPE_INT64 NO_FIELD_COUNT FIELD_ID_END_BUCKET_ELAPSED_MILLIS
               (Int64 (NanoToMillis (mBucketEndNs bucket))) #
             concat (map (writeAggregatedAtom p) (DAList.impl_of (mAggregatedAtoms bucket))) @
             [End] \<and>
           \<not> fieldWritten FIELD_ID_BUCKET_NUM info"
proof -
  let ?atoms = "concat (map (writeAggregatedAtom p) (DAList.impl_of (mAggregatedAtoms bucket)))"
  have a: "\<not> fieldWritten 6 ?atoms" "\<not> fieldWritten 7 ?atoms" "\<not> fieldWritten 8 ?atoms"
    using atoms_fields [of 6 p] atoms_fields [of 7 p] atoms_fields [of 8 p] by auto
  show ?thesis
  using assms a
  by (auto simp: writeBucketInfo_def writeBucketTimes_def getBucketNumFromEndTimeNs_def
        div64_def fieldWritten_Cons fieldWritten_append fieldWritten_Nil
        FIELD_ID_BUCKET_NUM_def FIELD_ID_START_BUCKET_ELAPSED_MILLIS_def
        FIELD_ID_END_BUCKET_ELAPSED_MILLIS_def
        split: if_splits sum.splits)
qed

lemma writeData_sublist:
  assumes "writeData p (dim, buckets) = Inr calls" and "bucket \<in> set buckets"
  shows "\<exists>info. writeBucketInfo p bucket = Inr info \<and> sublist info calls"
proof -
  from assms(1) obtain infos where infos: "collect (writeBucketInfo p) buckets = Inr infos"
    and calls: "\<exists>pre. calls = pre @ infos @ [End]"
    by (auto simp: writeData_def split: sum.splits)
  from collect_sublist [OF infos assms(2)] obtain info where
    info: "writeBucketInfo p bucket = Inr info" and sub: "sublist info infos" by blast
  from calls obtain pre where "calls = pre @ infos @ [End]" by blast
  then have "sublist infos calls" by simp
  with sub info show ?thesis
    using sublist_order.order.trans by blast
qed

text \<open>
  \<^bold>\<open>Claim C7.\<close> In a report that \<^verbatim>\<open>onDumpReportLocked\<close> produced, every past bucket of the
  flushed producer is emitted as one \<^verbatim>\<open>bucket_info\<close> message. If
  \<open>end - start = bucketSizeNs\<close>, the message carries
  \<open>bucket_num = (bucketEndNs - timeBaseNs) / bucketSizeNs - 1\<close> and neither of the two
  explicit time fields; otherwise it carries the start and the end of the bucket in
  milliseconds and no \<open>bucket_num\<close>.
\<close>

theorem bucket_info_times:
  assumes "onDumpReportLocked p t includePartial erase = Inr (p', out)"
    and "(if includePartial then flushLocked p t else flushIfNeededLocked p t) = Inr p1"
    and "(dim, buckets) \<in> set (DAList.impl_of (mPastBuckets p1))"
    and "bucket \<in> set buckets"
  shows "\<exists>info. sublist info out \<and>
     (if mBucketEndNs bucket - mBucketStartNs bucket = mBucketSizeNs p then
        info =
          Start FIELD_TYPE_MESSAGE FIELD_COUNT_REPEATED FIELD_ID_BUCKET_INFO #
          Write FIELD_TYPE_INT64 NO_FIELD_COUNT FIELD_ID_BUCKET_NUM
            (Int64 (sdiv64 (mBucketEndNs bucket - mTimeBaseNs p) (mBucketSizeNs p) - 1)) #
          concat (map (writeAggregatedAtom p1) (DAList.impl_of (mAggregatedAtoms bucket))) @
          [End] \<and>
        \<not> fieldWritten FIELD_ID_START_BUCKET_ELAPSED_MILLIS info \<and>
        \<not> fieldWritten FIELD_ID_END_BUCKET_ELAPSED_MILLIS info
      else
        info =
          Start FIELD_TYPE_MESSAGE FIELD_COUNT_REPEATED FIELD_ID_BUCKET_INFO #
          Write FIELD_TYPE_INT64 NO_FIELD_COUNT FIELD_ID_START_BUCKET_ELAPSED_MILLIS
            (Int64 (NanoToMillis (mBucketStartNs bucket))) #
          Write FIELD_TYPE_INT64 NO_FIELD_COUNT FIELD_ID_END_BUCKET_ELAPSED_MILLIS
            (Int64 (NanoToMillis (mBucketEndNs bucket))) #
          concat (map (writeAggregatedAtom p1) (DAList.impl_of (mAggregatedAtoms bucket))) @
          [End] \<and>
        \<not> fieldWritten FIELD_ID_BUCKET_NUM info)"
proof -
  note f = dump_flush_frame [OF assms(2)]
  from assms(3) have nonempty: "msize (mPastBuckets p1) \<noteq> 0"
    by (auto simp: msize_def)
  from assms(1,2) nonempty obtain dataCalls where
    dataCalls: "collect (writeData p1) (DAList.impl_of (mPastBuckets p1)) = Inr dataCalls"
    and out: "\<exists>pre. out = pre @ dataCalls @ [End]"
    by (auto simp: onDumpReportLocked_def Let_def split: sum.splits if_splits)
  from collect_sublist [OF dataCalls assms(3)] obtain calls where
    calls: "writeData p1 (dim, buckets) = Inr calls" and sub1: "sublist calls dataCalls"
    by blast
  from writeData_sublist [OF calls assms(4)] obtain info where
    info: "writeBucketInfo p1 bucket = Inr info" and sub2: "sublist info calls" by blast
  from out obtain pre where "out = pre @ dataCalls @ [End]" by blast
  then have "sublist dataCalls out" by simp
  with sub1 sub2 have "sublist info out"
    using sublist_order.order.trans by blast
  with writeBucketInfo_shape [OF info] f show ?thesis
    by (auto split: if_splits)
qed

text \<open>The report of \<open>filledProducer\<close> at 11: the bucket \<open>[0, 10)\<close> is a full bucket and is
  emitted with \<open>bucket_num = 0\<close>.\<close>

lemma onDumpReportLocked_total:
  assumes "0 <s mBucketSizeNs p" and "anomalyProjectionDefined p"
  shows "\<exists>p' out. onDumpReportLocked p t includePartial erase = Inr (p', out)"
proof -
  obtain p1 where p1:
    "(if includePartial then flushLocked p t else flushIfNeededLocked p t) = Inr p1"
    using dump_flush_total [OF assms] by blast
  have "0 <s mBucketSizeNs p1" using assms(1) dump_flush_frame(2) [OF p1] by simp
  then obtain dataCalls where
    "collect (writeData p1) (DAList.impl_of (mPastBuckets p1)) = Inr dataCalls"
    using collect_total [of "DAList.impl_of (mPastBuckets p1)" "writeData p1"]
      writeData_total [of p1] by blast
  then show ?thesis
    using p1 by (auto simp: onDumpReportLocked_def Let_def)
qed

lemma flush_filledProducer:
  "flushIfNeededLocked filledProducer 11 =
     Inr (filledProducer
            \<lparr>mPastBuckets := DAList.update keyA [flushedBucket] DAList.empty,
             statsdStats := [noteBucketCount 1], mCurrentSlicedBucket := DAList.empty,
             mCurrentBucketStartTimeNs := 10, mCurrentBucketNum := 1\<rparr>)"
  by (simp add: filledProducer_def flushedBucket_def gaugeAtomAt_def eval_defs div64_def
        sdiv64_def signed_divide_int_def flushCurrentBucketLocked_def
        updateAnomalyTrackers_def closeBucket_def isBucketLargeEnough_def bucketEndTime_def
        reset_def alist_eq_iff)

theorem bucket_info_times_witness:
  "map_sum id
     (\<lambda>r. sublist
            [Start FIELD_TYPE_MESSAGE FIELD_COUNT_REPEATED FIELD_ID_BUCKET_INFO,
             Write FIELD_TYPE_INT64 NO_FIELD_COUNT FIELD_ID_BUCKET_NUM (Int64 0)]
            (snd r))
     (onDumpReportLocked filledProducer 11 False False) = Inr True"
proof -
  have size: "0 <s mBucketSizeNs filledProducer"
    by (simp add: filledProducer_def producer0_def word_sless_alt)
  have ready: "anomalyProjectionDefined filledProducer"
    by (simp add: anomalyProjectionDefined_def filledProducer_def producer0_def)
  obtain p' out where dump: "onDumpReportLocked filledProducer 11 False False = Inr (p', out)"
    using onDumpReportLocked_total [OF size ready] by blast
  let ?p1 = "filledProducer
            \<lparr>mPastBuckets := DAList.update keyA [flushedBucket] DAList.empty,
             statsdStats := [noteBucketCount 1], mCurrentSlicedBucket := DAList.empty,
             mCurrentBucketStartTimeNs := 10, mCurrentBucketNum := 1\<rparr>"
  have flushed: "(if False then flushLocked filledProducer 11
                  else flushIfNeededLocked filledProducer 11) = Inr ?p1"
    by (simp add: flush_filledProducer)
  have mem: "(keyA, [flushedBucket]) \<in> set (DAList.impl_of (mPastBuckets ?p1))"
    by (simp add: DAList.update.rep_eq DAList.empty.rep_eq)
  have q: "sdiv64 (10 - 0) 10 - 1 = 0"
    by (simp add: sdiv64_def signed_divide_int_def)
  from bucket_info_times [OF dump flushed mem, of flushedBucket]
  obtain info rest where "sublist info out"
    and "info = [Start FIELD_TYPE_MESSAGE FIELD_COUNT_REPEATED FIELD_ID_BUCKET_INFO,
                 Write FIELD_TYPE_INT64 NO_FIELD_COUNT FIELD_ID_BUCKET_NUM (Int64 0)] @ rest"
    using q by (auto simp: flushedBucket_def filledProducer_def producer0_def)
  then have "sublist
            [Start FIELD_TYPE_MESSAGE FIELD_COUNT_REPEATED FIELD_ID_BUCKET_INFO,
             Write FIELD_TYPE_INT64 NO_FIELD_COUNT FIELD_ID_BUCKET_NUM (Int64 0)] out"
    using sublist_order.order.trans sublist_append_rightI by blast
  with dump show ?thesis by simp
qed

section \<open>Properties of the current bucket\<close>

text \<open>A property of producers that depends only on the current bucket and its
  configuration, that holds for an empty bucket whenever it holds at all, and that the
  append path preserves, is preserved by every operation.\<close>

lemma invariant_flushCurrentBucketLocked:
  assumes emp: "\<forall>p q. I p \<longrightarrow> sameBucketConfig p q \<longrightarrow>
                 mCurrentSlicedBucket q = DAList.empty \<longrightarrow> I q"
    and "I p" and "flushCurrentBucketLocked p t n = Inr p'"
  shows "I p'"
  using emp [rule_format, OF assms(2), of p'] flushCurrentBucketLocked_frame [OF assms(3)]
  by (simp add: sameBucketConfig_def)

lemma invariant_flushIfNeededLocked:
  assumes emp: "\<forall>p q. I p \<longrightarrow> sameBucketConfig p q \<longrightarrow>
                 mCurrentSlicedBucket q = DAList.empty \<longrightarrow> I q"
    and "I p" and "flushIfNeededLocked p t = Inr p'"
  shows "I p'"
  using flushIfNeededLocked_cases [OF assms(3)] assms(2)
    emp [rule_format, OF assms(2), of p'] flushIfNeededLocked_frame [OF assms(3)]
  by (auto simp: sameBucketConfig_def)

lemma invariant_flushLocked:
  assumes emp: "\<forall>p q. I p \<longrightarrow> sameBucketConfig p q \<longrightarrow>
                 mCurrentSlicedBucket q = DAList.empty \<longrightarrow> I q"
    and "I p" and "flushLocked p t = Inr p'"
  shows "I p'"
  using emp [rule_format, OF assms(2), of p'] flushLocked_frame [OF assms(3)]
  by (simp add: sameBucketConfig_def)

lemma invariant_pull:
  assumes emp: "\<forall>p q. I p \<longrightarrow> sameBucketConfig p q \<longrightarrow>
                 mCurrentSlicedBucket q = DAList.empty \<longrightarrow> I q"
    and dep: "\<forall>p q. I p \<longrightarrow> sameBucketConfig p q \<longrightarrow>
                 mCurrentSlicedBucket q = mCurrentSlicedBucket p \<longrightarrow> I q"
    and app: "\<forall>h p k ev. I p \<longrightarrow> I (appendGaugeAtom h p k ev)"
  shows "pullAndMatchEventsLocked h p t reply = Inr p' \<Longrightarrow> I p \<Longrightarrow> I p'"
    and "matchPulledEvents h p t pulled = Inr p' \<Longrightarrow> I p \<Longrightarrow> I p'"
    and "onMatchedLogEventLocked h p event env = Inr p' \<Longrightarrow> I p \<Longrightarrow> I p'"
    and "onMatchedLogEventInternalLocked h p eventKey cond event keep reply = Inr p' \<Longrightarrow>
           I p \<Longrightarrow> I p'"
proof (induction h p t reply and h p t pulled and h p event env
         and h p eventKey cond event keep reply
       arbitrary: p' and p' and p' and p'
       rule: pullAndMatchEventsLocked_matchPulledEvents_onMatchedLogEventLocked_onMatchedLogEventInternalLocked.induct)
  case (1 h p timestampNs ok pulled now)
  let ?p1 = "p\<lparr>statsdStats := statsdStats p @
                 [notePullDelay (mPullTagId p) (now - timestampNs)]\<rparr>"
  have I1: "I ?p1"
    using dep [rule_format, OF "1.prems"(2), of ?p1] by (simp add: sameBucketConfig_def)
  show ?case
  proof (cases "triggerPuller p \<and> ok")
    case False
    with "1.prems" show ?thesis by (auto split: if_splits)
  next
    case True
    show ?thesis
    proof (cases "mMaxPullDelayNs p <s now - timestampNs")
      case late: True
      with True "1.prems"(1) have "p' = ?p1\<lparr>statsdStats := statsdStats ?p1 @
                                      [notePullExceedMaxDelay (mPullTagId p)]\<rparr>"
        by (simp add: Let_def)
      then show ?thesis
        using dep [rule_format, OF I1, of p'] by (simp add: sameBucketConfig_def)
    next
      case False
      with True "1.prems"(1) have "matchPulledEvents h ?p1 timestampNs pulled = Inr p'"
        by (simp add: Let_def)
      from "1.IH" [OF _ _ refl refl False this I1] True show ?thesis by simp
    qed
  qed
next
  case (2 h p timestampNs)
  then show ?case by simp
next
  case (3 h p timestampNs d verdict transformed env rest)
  show ?case
  proof (cases "verdict = kMatched")
    case True
    let ?ev = "setElapsedTimestampNs timestampNs (case transformed of None \<Rightarrow> d | Some t \<Rightarrow> t)"
    from True "3.prems"(1) obtain q where q: "onMatchedLogEventLocked h p ?ev env = Inr q"
      and rest: "matchPulledEvents h q timestampNs rest = Inr p'"
      by (auto split: sum.splits)
    from "3.IH"(1) [OF True q "3.prems"(2)] have "I q" .
    from "3.IH"(2) [OF True q rest this] show ?thesis .
  next
    case False
    with "3.prems"(1) have "matchPulledEvents h p timestampNs rest = Inr p'" by simp
    from "3.IH"(3) [OF False this "3.prems"(2)] show ?thesis .
  qed
next
  case (4 h p event key cond keep reply)
  show ?case
  proof (cases "mIsActive p")
    case True
    with "4.prems"(1) have
      "onMatchedLogEventInternalLocked h p key cond event keep reply = Inr p'" by simp
    from "4.IH" [OF _ this "4.prems"(2)] True show ?thesis by simp
  next
    case False
    with "4.prems" show ?thesis by simp
  qed
next
  case (5 h p eventKey cond event keep reply)
  let ?t = "GetElapsedTimestampNs event"
  show ?case
  proof (cases "cond = False \<or> (mPullTagId p = - 1 \<and> mSamplingPercentage p <s 100 \<and> \<not> keep)
                  \<or> ?t <s mCurrentBucketStartTimeNs p")
    case True
    with "5.prems" show ?thesis
      by (auto simp: onMatchedLogEventInternalLocked.simps split: if_splits)
  next
    case False
    with "5.prems"(1) obtain p1 where p1: "flushIfNeededLocked p ?t = Inr p1"
      and res: "(if mTriggerAtomId p1 = GetTagId event
                 then pullAndMatchEventsLocked h p1 ?t reply
                 else Inr (appendGaugeAtom h p1 eventKey event)) = Inr p'"
      by (auto simp: onMatchedLogEventInternalLocked.simps split: sum.splits)
    have I1: "I p1"
      using invariant_flushIfNeededLocked [where I = I, OF emp "5.prems"(2) p1] .
    show ?thesis
    proof (cases "mTriggerAtomId p1 = GetTagId event")
      case True
      with res have "pullAndMatchEventsLocked h p1 ?t reply = Inr p'" by simp
      from "5.IH" [OF _ _ _ p1 True this I1] False show ?thesis by auto
    next
      case False
      with res have "p' = appendGaugeAtom h p1 eventKey event" by simp
      with app [rule_format, OF I1] show ?thesis by simp
    qed
  qed
qed

lemma invariant_matchDeliveredEvents:
  assumes emp: "\<forall>p q. I p \<longrightarrow> sameBucketConfig p q \<longrightarrow>
                 mCurrentSlicedBucket q = DAList.empty \<longrightarrow> I q"
    and dep: "\<forall>p q. I p \<longrightarrow> sameBucketConfig p q \<longrightarrow>
                 mCurrentSlicedBucket q = mCurrentSlicedBucket p \<longrightarrow> I q"
    and app: "\<forall>h p k ev. I p \<longrightarrow> I (appendGaugeAtom h p k ev)"
  shows "matchDeliveredEvents h p pulled = Inr p' \<Longrightarrow> I p \<Longrightarrow> I p'"
proof (induction pulled arbitrary: p)
  case Nil
  then show ?case by simp
next
  case (Cons pe rest)
  show ?case
  proof (cases "matchResult pe = kMatched")
    case True
    with Cons.prems(1) obtain q where
      q: "onMatchedLogEventLocked h p
            (case transformedEvent pe of None \<Rightarrow> data pe | Some t \<Rightarrow> t) (matchedEnv pe) = Inr q"
      and rest: "matchDeliveredEvents h q rest = Inr p'"
      by (auto split: sum.splits)
    from invariant_pull(3) [where I = I, OF emp dep app q Cons.prems(2)] have "I q" .
    from Cons.IH [OF rest this] show ?thesis .
  next
    case False
    with Cons.prems(1) have "matchDeliveredEvents h p rest = Inr p'" by simp
    from Cons.IH [OF this Cons.prems(2)] show ?thesis .
  qed
qed

lemma invariant_step:
  assumes emp: "\<forall>p q. I p \<longrightarrow> sameBucketConfig p q \<longrightarrow>
                 mCurrentSlicedBucket q = DAList.empty \<longrightarrow> I q"
    and dep: "\<forall>p q. I p \<longrightarrow> sameBucketConfig p q \<longrightarrow>
                 mCurrentSlicedBucket q = mCurrentSlicedBucket p \<longrightarrow> I q"
    and app: "\<forall>h p k ev. I p \<longrightarrow> I (appendGaugeAtom h p k ev)"
    and I: "I p" and step: "step h p operation = Inr p'"
  shows "I p'"
proof -
  note pull = invariant_pull(1) [where I = I, OF emp dep app]
  note matched = invariant_pull(3) [where I = I, OF emp dep app]
  note flushIf = invariant_flushIfNeededLocked [where I = I, OF emp]
  note flushAll = invariant_flushLocked [where I = I, OF emp]
  show ?thesis
  proof (cases operation)
    case (OnMatchedLogEvent event env)
    with step I matched show ?thesis by auto
  next
    case (OnConditionChanged conditionMet t reply)
    let ?p1 = "p\<lparr>mCondition := (if conditionMet then kTrue else kFalse)\<rparr>"
    have I1: "I ?p1" using dep [rule_format, OF I, of ?p1] by (simp add: sameBucketConfig_def)
    show ?thesis
    proof (cases "mIsActive p")
      case False
      with step OnConditionChanged I1 show ?thesis
        by (simp add: onConditionChangedLocked_def Let_def)
    next
      case True
      with step OnConditionChanged obtain p2 where p2: "flushIfNeededLocked ?p1 t = Inr p2"
        and res: "(if conditionMet \<and> mIsPulled p2 \<and>
                      (isRandomNSamples p2 \<or> mSamplingType p2 = CONDITION_CHANGE_TO_TRUE)
                   then pullAndMatchEventsLocked h p2 t reply else Inr p2) = Inr p'"
        by (auto simp: onConditionChangedLocked_def Let_def split: sum.splits)
      from flushIf [OF I1 p2] have "I p2" .
      with res pull show ?thesis by (auto split: if_splits)
    qed
  next
    case (OnSlicedConditionMayChange overall t reply)
    let ?p1 = "p\<lparr>mCondition := (if overall then kTrue else kFalse)\<rparr>"
    have I1: "I ?p1" using dep [rule_format, OF I, of ?p1] by (simp add: sameBucketConfig_def)
    show ?thesis
    proof (cases "mIsActive p")
      case False
      with step OnSlicedConditionMayChange I1 show ?thesis
        by (simp add: onSlicedConditionMayChangeLocked_def Let_def)
    next
      case True
      with step OnSlicedConditionMayChange obtain p2 where
        p2: "flushIfNeededLocked ?p1 t = Inr p2"
        and res: "(if overall \<and> mIsPulled p2 \<and> mTriggerAtomId p2 = - 1
                   then pullAndMatchEventsLocked h p2 t reply else Inr p2) = Inr p'"
        by (auto simp: onSlicedConditionMayChangeLocked_def Let_def split: sum.splits)
      from flushIf [OF I1 p2] have "I p2" .
      with res pull show ?thesis by (auto split: if_splits)
    qed
  next
    case (OnActiveStateChanged t isActive reply)
    with step obtain p1 where p1: "(if \<not> isActive then flushLocked p t else Inr p) = Inr p1"
      and res: "(if kTrue \<noteq> mCondition p1 then Inr p1
                 else if isActive \<and> mIsPulled p1 \<and> isRandomNSamples p1
                 then pullAndMatchEventsLocked h p1 t reply else Inr p1) = Inr p'"
      by (auto simp: onActiveStateChangedLocked_def split: sum.splits)
    have "I p1" using p1 I flushAll [OF I, of t p1] by (auto split: if_splits)
    with res pull show ?thesis by (auto split: if_splits)
  next
    case (OnDataPulled pulled pullResult originalPullTimeNs now)
    let ?p1 = "p\<lparr>statsdStats := statsdStats p @
                   [notePullDelay (mPullTagId p) (now - originalPullTimeNs)]\<rparr>"
    let ?p2 = "?p1\<lparr>statsdStats := statsdStats ?p1 @ [notePullExceedMaxDelay (mPullTagId p)]\<rparr>"
    have I1: "I ?p1" using dep [rule_format, OF I, of ?p1] by (simp add: sameBucketConfig_def)
    have I2: "I ?p2" using dep [rule_format, OF I, of ?p2] by (simp add: sameBucketConfig_def)
    from step OnDataPulled have
      "p' = p \<or> p' = ?p2 \<or> matchDeliveredEvents h ?p1 pulled = Inr p'"
      by (auto simp: onDataPulled_def Let_def split: if_splits)
    with I I2 invariant_matchDeliveredEvents [where I = I, OF emp dep app _ I1]
    show ?thesis by auto
  next
    case (OnDumpReport t includePartial erase)
    with step obtain out where dump: "onDumpReportLocked p t includePartial erase = Inr (p', out)"
      by (auto split: sum.splits)
    then obtain p1 where
      p1: "(if includePartial then flushLocked p t else flushIfNeededLocked p t) = Inr p1"
      and res: "p' = p1 \<or> p' = p1\<lparr>mPastBuckets := DAList.empty, mSkippedBuckets := [],
                                     mDimensionGuardrailHit := False\<rparr>"
      by (auto simp: onDumpReportLocked_def Let_def split: sum.splits if_splits)
    have I1: "I p1" using p1 flushAll [OF I, of t p1] flushIf [OF I, of t p1]
      by (auto split: if_splits)
    with res dep [rule_format, OF I1, of p'] show ?thesis by (auto simp: sameBucketConfig_def)
  next
    case (DropData t)
    with step obtain p1 where p1: "flushIfNeededLocked p t = Inr p1"
      and res: "p' = p1\<lparr>statsdStats := statsdStats p1 @ [noteBucketDropped (mMetricId p1)],
                       mPastBuckets := DAList.empty\<rparr>"
      by (auto simp: dropDataLocked_def split: sum.splits)
    from flushIf [OF I p1] have I1: "I p1" .
    with res dep [rule_format, OF I1, of p'] show ?thesis by (simp add: sameBucketConfig_def)
  next
    case (ClearPastBuckets t)
    with step obtain p1 where p1: "flushIfNeededLocked p t = Inr p1"
      and res: "p' = p1\<lparr>mPastBuckets := DAList.empty, mSkippedBuckets := []\<rparr>"
      by (auto simp: clearPastBucketsLocked_def split: sum.splits)
    from flushIf [OF I p1] have I1: "I p1" .
    with res dep [rule_format, OF I1, of p'] show ?thesis by (simp add: sameBucketConfig_def)
  next
    case (PrepareFirstBucket reply)
    with step I pull show ?thesis
      by (auto simp: prepareFirstBucketLocked_def split: if_splits)
  next
    case (FlushLocked t)
    with step flushAll [OF I, of t p'] show ?thesis by simp
  qed
qed

lemma invariant_run:
  assumes emp: "\<forall>p q. I p \<longrightarrow> sameBucketConfig p q \<longrightarrow>
                 mCurrentSlicedBucket q = DAList.empty \<longrightarrow> I q"
    and dep: "\<forall>p q. I p \<longrightarrow> sameBucketConfig p q \<longrightarrow>
                 mCurrentSlicedBucket q = mCurrentSlicedBucket p \<longrightarrow> I q"
    and app: "\<forall>h p k ev. I p \<longrightarrow> I (appendGaugeAtom h p k ev)"
  shows "I p \<Longrightarrow> run h p ops = Inr p' \<Longrightarrow> I p'"
proof (induction ops arbitrary: p)
  case Nil
  then show ?case by simp
next
  case (Cons operation ops)
  from Cons.prems(2) obtain q where q: "step h p operation = Inr q"
    and rest: "run h q ops = Inr p'"
    by (auto split: sum.splits)
  from invariant_step [where I = I, OF emp dep app Cons.prems(1) q] have "I q" .
  from Cons.IH [OF this rest] show ?case .
qed

lemma length_AList_update:
  "length (AList.update k v al) = (if k \<in> fst ` set al then length al else Suc (length al))"
  by (induction al) auto

lemma contains_iff: "contains m k \<longleftrightarrow> k \<in> fst ` set (DAList.impl_of m)"
  by (simp add: contains_def DAList.lookup.rep_eq map_of_eq_None_iff)

lemma msize_update:
  "msize (DAList.update k v m) = (if contains m k then msize m else Suc (msize m))"
  by (simp add: msize_def DAList.update.rep_eq length_AList_update contains_iff)

lemma msize_subscript:
  "msize (subscript m k) = (if contains m k then msize m else Suc (msize m))"
  by (simp add: subscript_def msize_update)

lemma contains_subscript: "contains (subscript m k) k' \<longleftrightarrow> k' = k \<or> contains m k'"
  by (auto simp: subscript_def contains_update)

lemma msize_empty: "msize DAList.empty = 0"
  by (simp add: msize_def DAList.empty.rep_eq)

lemma hitGuardRailLocked_fst:
  "fst (hitGuardRailLocked p newKey) \<longleftrightarrow>
     \<not> contains (mCurrentSlicedBucket p) newKey \<and>
     mDimensionSoftLimit p \<le> msize (mCurrentSlicedBucket p) \<and>
     mDimensionHardLimit p < msize (mCurrentSlicedBucket p) + 1"
  by (simp add: hitGuardRailLocked_def Let_def)

lemma hitGuardRailLocked_flag:
  "fst (hitGuardRailLocked p newKey) \<Longrightarrow>
     mDimensionGuardrailHit (snd (hitGuardRailLocked p newKey))"
  by (auto simp: hitGuardRailLocked_def Let_def split: if_splits)

lemma appendGaugeAtom_rejected:
  assumes "fst (hitGuardRailLocked p newKey)"
  shows "appendGaugeAtom h p newKey event = snd (hitGuardRailLocked p newKey)"
proof -
  from assms have "\<not> contains (mCurrentSlicedBucket p) newKey"
    by (simp add: hitGuardRailLocked_fst)
  with assms show ?thesis
    by (cases "hitGuardRailLocked p newKey") (simp add: appendGaugeAtom_def)
qed

lemma appendGaugeAtom_bucket:
  "mCurrentSlicedBucket (appendGaugeAtom h p k ev) = mCurrentSlicedBucket p \<or>
   \<not> fst (hitGuardRailLocked p k) \<and>
   \<not> (contains (mCurrentSlicedBucket p) k \<and> mSamplingType p = RANDOM_ONE_SAMPLE) \<and>
   (mCurrentSlicedBucket (appendGaugeAtom h p k ev) = subscript (mCurrentSlicedBucket p) k \<or>
    mCurrentSlicedBucket (appendGaugeAtom h p k ev) =
      DAList.update k
        (at (mCurrentSlicedBucket p) k @
         [\<lparr>mFields = getGaugeFields h p ev,
           mElapsedTimestampNs = truncateTimestampIfNecessary h ev\<rparr>])
        (subscript (mCurrentSlicedBucket p) k))"
proof (cases "hitGuardRailLocked p k")
  case (Pair hit p1)
  note f = hitGuardRailLocked_frame [of p k, unfolded Pair, simplified]
  have g: "getGaugeFields h p1 ev = getGaugeFields h p ev"
    using f by (simp add: getGaugeFields_def)
  show ?thesis
    using f
    by (cases hit)
       (auto simp: appendGaugeAtom_def Pair Let_def at_subscript g split: list.splits)
qed

lemma appendGaugeAtom_config: "sameBucketConfig p (appendGaugeAtom h p k ev)"
proof (cases "hitGuardRailLocked p k")
  case (Pair hit p1)
  note f = hitGuardRailLocked_frame [of p k, unfolded Pair, simplified]
  show ?thesis
    using f
    by (cases hit)
       (auto simp: sameBucketConfig_def appendGaugeAtom_def Pair Let_def split: list.splits)
qed

lemma withinHardLimit_append:
  assumes "soft \<le> hard" and "withinHardLimit soft hard p"
  shows "withinHardLimit soft hard (appendGaugeAtom h p k ev)"
proof -
  from appendGaugeAtom_config [of p h k ev] assms(2)
  have c: "mDimensionSoftLimit (appendGaugeAtom h p k ev) = soft"
    "mDimensionHardLimit (appendGaugeAtom h p k ev) = hard"
    by (simp_all add: sameBucketConfig_def withinHardLimit_def)
  have "msize (mCurrentSlicedBucket (appendGaugeAtom h p k ev)) \<le> hard"
    using appendGaugeAtom_bucket [of h p k ev] assms
    by (auto simp: withinHardLimit_def hitGuardRailLocked_fst msize_update msize_subscript
          contains_subscript split: if_splits)
  with c show ?thesis by (simp add: withinHardLimit_def)
qed

lemma withinHardLimit_run:
  assumes "soft \<le> hard" and "withinHardLimit soft hard p" and "run h p ops = Inr p'"
  shows "withinHardLimit soft hard p'"
proof (rule invariant_run [where I = "withinHardLimit soft hard", OF _ _ _ assms(2,3)])
  show "\<forall>p q. withinHardLimit soft hard p \<longrightarrow> sameBucketConfig p q \<longrightarrow>
          mCurrentSlicedBucket q = DAList.empty \<longrightarrow> withinHardLimit soft hard q"
    by (simp add: withinHardLimit_def sameBucketConfig_def msize_empty)
  show "\<forall>p q. withinHardLimit soft hard p \<longrightarrow> sameBucketConfig p q \<longrightarrow>
          mCurrentSlicedBucket q = mCurrentSlicedBucket p \<longrightarrow> withinHardLimit soft hard q"
    by (simp add: withinHardLimit_def sameBucketConfig_def)
  show "\<forall>h p k ev. withinHardLimit soft hard p \<longrightarrow>
          withinHardLimit soft hard (appendGaugeAtom h p k ev)"
    using withinHardLimit_append [OF assms(1)] by blast
qed

text \<open>
  \<^bold>\<open>Claim C3\<close>, as stated, fails: the hard limit is only tested once the soft limit is
  reached. With a soft limit of 5 and a hard limit of 1, two events for two dimensions
  are both accepted: the bucket holds 2 keys and the flag is not raised.
\<close>

theorem dimension_guardrail_counterexample:
  "map_sum id
     (\<lambda>p'. (msize (mCurrentSlicedBucket p'), mDimensionHardLimit p', mDimensionGuardrailHit p'))
     (run helpers0 (producer0\<lparr>mDimensionSoftLimit := 5, mDimensionHardLimit := 1\<rparr>)
        [keyEvent 1 keyA, keyEvent 2 keyB]) = Inr (2, 1, False)"
  by (simp add: keyEvent_def eval_defs)

text \<open>
  \<^bold>\<open>Claim C3, amended.\<close> \<^verbatim>\<open>hitGuardRailLocked(newKey)\<close> returns true exactly when
  \<open>newKey\<close> is not yet present, the soft limit is reached
  (\<open>|currentSlicedBucket| \<ge> dimensionSoftLimit\<close>) and \<open>|currentSlicedBucket| + 1\<close> exceeds
  \<open>dimensionHardLimit\<close>; the append path then rejects the event, leaving the bucket as it
  is, with the dimension-guardrail-hit flag raised. When
  \<open>dimensionSoftLimit \<le> dimensionHardLimit\<close>, the test of the soft limit is implied by
  the other two, and for every sequence of operations a bucket that holds at most
  \<open>dimensionHardLimit\<close> keys still does so afterwards.
\<close>

theorem dimension_guardrail:
  "(fst (hitGuardRailLocked p newKey) \<longleftrightarrow>
      \<not> contains (mCurrentSlicedBucket p) newKey \<and>
      mDimensionSoftLimit p \<le> msize (mCurrentSlicedBucket p) \<and>
      mDimensionHardLimit p < msize (mCurrentSlicedBucket p) + 1) \<and>
   (fst (hitGuardRailLocked p newKey) \<longrightarrow>
      mDimensionGuardrailHit (appendGaugeAtom h p newKey event) \<and>
      mCurrentSlicedBucket (appendGaugeAtom h p newKey event) = mCurrentSlicedBucket p) \<and>
   (mDimensionSoftLimit p \<le> mDimensionHardLimit p \<longrightarrow>
      (fst (hitGuardRailLocked p newKey) \<longleftrightarrow>
         \<not> contains (mCurrentSlicedBucket p) newKey \<and>
         mDimensionHardLimit p < msize (mCurrentSlicedBucket p) + 1) \<and>
      (msize (mCurrentSlicedBucket p) \<le> mDimensionHardLimit p \<and> run h p ops = Inr p' \<longrightarrow>
         msize (mCurrentSlicedBucket p') \<le> mDimensionHardLimit p' \<and>
         mDimensionHardLimit p' = mDimensionHardLimit p))"
proof -
  have a: "fst (hitGuardRailLocked p newKey) \<longrightarrow>
      mDimensionGuardrailHit (appendGaugeAtom h p newKey event) \<and>
      mCurrentSlicedBucket (appendGaugeAtom h p newKey event) = mCurrentSlicedBucket p"
    using hitGuardRailLocked_flag [of p newKey] hitGuardRailLocked_frame(1) [of p newKey]
    by (simp add: appendGaugeAtom_rejected)
  have b: "msize (mCurrentSlicedBucket p') \<le> mDimensionHardLimit p' \<and>
           mDimensionHardLimit p' = mDimensionHardLimit p"
    if "mDimensionSoftLimit p \<le> mDimensionHardLimit p"
      and "msize (mCurrentSlicedBucket p) \<le> mDimensionHardLimit p"
      and "run h p ops = Inr p'"
    using withinHardLimit_run [OF that(1) _ that(3)] that(2)
    by (simp add: withinHardLimit_def)
  show ?thesis
    using a b by (auto simp: hitGuardRailLocked_fst)
qed

text \<open>Scenario S3 of the spec, with a soft limit of 1 and a hard limit of 2.\<close>

theorem dimension_guardrail_witness:
  "mDimensionSoftLimit producer0 \<le> mDimensionHardLimit producer0 \<and>
   map_sum id (\<lambda>p'. (msize (mCurrentSlicedBucket p') \<le> 2, mDimensionGuardrailHit p'))
     (run helpers0 producer0 [keyEvent 1 keyA, keyEvent 2 keyB, keyEvent 3 keyC]) =
   Inr (True, True)"
proof -
  let ?q = "producer0
            \<lparr>mCurrentSlicedBucket :=
               DAList.update keyB [\<lparr>mFields = [\<lparr>mField = Field 7 2, mValue = INT_value 3\<rparr>],
                                    mElapsedTimestampNs = 2\<rparr>]
                 (DAList.update keyA [\<lparr>mFields = [\<lparr>mField = Field 7 2, mValue = INT_value 3\<rparr>],
                                       mElapsedTimestampNs = 1\<rparr>] DAList.empty),
             mHasHitGuardrail := True, mDimensionGuardrailHit := True,
             statsdStats := [noteMetricDimensionSize 1 2, noteMetricDimensionSize 1 3,
                             noteHardDimensionLimitReached 1]\<rparr>"
  have limits: "mDimensionSoftLimit producer0 \<le> mDimensionHardLimit producer0"
    "msize (mCurrentSlicedBucket producer0) \<le> mDimensionHardLimit producer0"
    "mDimensionHardLimit producer0 = 2"
    by (simp_all add: producer0_def msize_empty)
  from dimension_guardrail
    [of producer0 keyA helpers0 "atomEvent 1 3"
        "[keyEvent 1 keyA, keyEvent 2 keyB, keyEvent 3 keyC]" ?q]
    limits three_dimensions
  have "msize (mCurrentSlicedBucket ?q) \<le> 2" by simp
  with limits(1) three_dimensions show ?thesis by simp
qed

lemma set_AList_update: "set (AList.update k v al) \<subseteq> insert (k, v) (set al)"
  by (induction al) auto

lemma list_all_update:
  "P (k, v) \<Longrightarrow> list_all P (DAList.impl_of m) \<Longrightarrow> list_all P (DAList.impl_of (DAList.update k v m))"
  using set_AList_update [of k v "DAList.impl_of m"]
  by (auto simp: list_all_iff DAList.update.rep_eq)

lemma at_absent: "\<not> contains m k \<Longrightarrow> at m k = []"
  by (simp add: contains_def at_def)

lemma oneAtomPerDimension_append:
  assumes "mSamplingType p = RANDOM_ONE_SAMPLE" and "oneAtomPerDimension p"
  shows "oneAtomPerDimension (appendGaugeAtom h p k ev)"
proof -
  have sub: "list_all (\<lambda>slice. length (snd slice) \<le> 1)
               (DAList.impl_of (subscript (mCurrentSlicedBucket p) k))"
    using assms(2) by (simp add: subscript_def oneAtomPerDimension_def list_all_update)
  from appendGaugeAtom_bucket [of h p k ev] show ?thesis
    using assms sub
    by (auto simp: oneAtomPerDimension_def at_absent intro!: list_all_update)
qed

lemma oneAtomPerDimension_run:
  assumes "mSamplingType p = RANDOM_ONE_SAMPLE" and "oneAtomPerDimension p"
    and "run h p ops = Inr p'"
  shows "oneAtomPerDimension p'"
proof -
  let ?I = "\<lambda>p. mSamplingType p = RANDOM_ONE_SAMPLE \<and> oneAtomPerDimension p"
  have "?I p'"
  proof (rule invariant_run [where I = ?I, OF _ _ _ _ assms(3)])
    show "\<forall>p q. ?I p \<longrightarrow> sameBucketConfig p q \<longrightarrow> mCurrentSlicedBucket q = DAList.empty \<longrightarrow> ?I q"
      by (simp add: oneAtomPerDimension_def sameBucketConfig_def DAList.empty.rep_eq)
    show "\<forall>p q. ?I p \<longrightarrow> sameBucketConfig p q \<longrightarrow>
            mCurrentSlicedBucket q = mCurrentSlicedBucket p \<longrightarrow> ?I q"
      by (simp add: oneAtomPerDimension_def sameBucketConfig_def)
    show "\<forall>h p k ev. ?I p \<longrightarrow> ?I (appendGaugeAtom h p k ev)"
      using oneAtomPerDimension_append appendGaugeAtom_config
      by (auto simp: sameBucketConfig_def)
    show "?I p" using assms(1,2) by simp
  qed
  then show ?thesis by simp
qed

lemma pull_gate_closed:
  assumes "mSamplingType p = RANDOM_ONE_SAMPLE" and "msize (mCurrentSlicedBucket p) \<noteq> 0"
  shows "pullAndMatchEventsLocked h p t reply = Inr p"
  using assms by (cases reply) (simp add: triggerPuller_def)

lemma pull_gate_closed_repeatedly:
  assumes "mSamplingType p = RANDOM_ONE_SAMPLE" and "msize (mCurrentSlicedBucket p) \<noteq> 0"
  shows "pullAndMatchRepeatedly h p pulls = Inr p"
proof (induction pulls)
  case Nil
  then show ?case by simp
next
  case (Cons pull pulls)
  then show ?case
    by (cases pull) (simp add: pull_gate_closed [OF assms])
qed

text \<open>
  \<^bold>\<open>Claim C4.\<close> Under \<open>RANDOM_ONE_SAMPLE\<close>: if every dimension of the current bucket
  holds at most one gauge atom, this is still so after any sequence of operations; the
  puller is triggered exactly when the current sliced bucket is empty; and while the bucket
  is not empty, one call of \<^verbatim>\<open>pullAndMatchEventsLocked\<close>, and any number of calls in a
  row, return the producer unchanged, whatever the puller would have replied.
\<close>

theorem random_one_sample:
  assumes "mSamplingType p = RANDOM_ONE_SAMPLE"
  shows "(oneAtomPerDimension p \<and> run h p ops = Inr p' \<longrightarrow> oneAtomPerDimension p') \<and>
         (triggerPuller p \<longleftrightarrow> msize (mCurrentSlicedBucket p) = 0) \<and>
         (msize (mCurrentSlicedBucket p) \<noteq> 0 \<longrightarrow>
            pullAndMatchEventsLocked h p t reply = Inr p \<and>
            pullAndMatchRepeatedly h p pulls = Inr p)"
  using assms oneAtomPerDimension_run [OF assms] pull_gate_closed [OF assms]
    pull_gate_closed_repeatedly [OF assms]
  by (auto simp: triggerPuller_def)

text \<open>Scenario S2 of the spec within one bucket: the pull at 2 adds one atom, the pull at
  5 adds none; two further calls leave the producer as it is.\<close>

lemma first_pull:
  "run helpers0 pulledProducer
     [OnConditionChanged True 2 (pullReply 2), OnConditionChanged True 5 (pullReply 5)] =
   Inr sampledProducer"
  by (simp add: onConditionChangedLocked_def isRandomNSamples_def triggerPuller_def
        pullReply_def sampledProducer_def pulledProducer_def setElapsedTimestampNs_def
        eval_defs alist_eq_iff)

theorem random_one_sample_witness:
  "mSamplingType pulledProducer = RANDOM_ONE_SAMPLE \<and>
   map_sum id oneAtomPerDimension
     (run helpers0 pulledProducer
        [OnConditionChanged True 2 (pullReply 2), OnConditionChanged True 5 (pullReply 5)]) =
     Inr True \<and>
   msize (mCurrentSlicedBucket sampledProducer) \<noteq> 0 \<and>
   pullAndMatchRepeatedly helpers0 sampledProducer [(5, pullReply 5), (7, pullReply 7)] =
     Inr sampledProducer"
proof -
  have t: "mSamplingType pulledProducer = RANDOM_ONE_SAMPLE"
    "mSamplingType sampledProducer = RANDOM_ONE_SAMPLE"
    by (simp_all add: sampledProducer_def pulledProducer_def producer0_def)
  have one: "oneAtomPerDimension pulledProducer"
    by (simp add: oneAtomPerDimension_def pulledProducer_def producer0_def DAList.empty.rep_eq)
  have n: "msize (mCurrentSlicedBucket sampledProducer) \<noteq> 0"
    by (simp add: sampledProducer_def pulledProducer_def producer0_def msize_update
          contains_empty)
  from random_one_sample [OF t(1), of helpers0
      "[OnConditionChanged True 2 (pullReply 2), OnConditionChanged True 5 (pullReply 5)]"
      sampledProducer] one first_pull
  have a: "oneAtomPerDimension sampledProducer" by simp
  from random_one_sample [OF t(2), of helpers0 "[]" sampledProducer 5 "pullReply 5"
      "[(5, pullReply 5), (7, pullReply 7)]"] n
  have b: "pullAndMatchRepeatedly helpers0 sampledProducer [(5, pullReply 5), (7, pullReply 7)] =
     Inr sampledProducer" by blast
  show ?thesis using t(1) a b n first_pull by simp
qed

end
